theory Spec2Isabelle
  imports Main "HOL-Library.Word"
begin

unbundle bit_operations_syntax

section \<open>Data model of glad.h (current revision, with alignment)\<close>

text \<open>
  The target is LP64: pointers, \<^verbatim>\<open>ptrdiff_t\<close>, \<^verbatim>\<open>size_t\<close> and \<^verbatim>\<open>uintptr_t\<close> are 64-bit words
  (arithmetic wraps, \<open>\<le>s\<close> and \<open><s\<close> are the signed comparisons of \<^verbatim>\<open>ptrdiff_t\<close>),
  \<^verbatim>\<open>int\<close> flags are 32-bit words, and the null pointer is the word 0.
\<close>

type_synonym ptr = "64 word"
type_synonym ptrdiff = "64 word"
type_synonym byte = "8 word"
type_synonym cint = "32 word"

text \<open>
  \<^verbatim>\<open>struct chunk { chunk* ch_next; ptrdiff_t ch_size; ptrdiff_t ch_offset; char ch_data[]; }\<close>.
  The flexible data region is a function from the index to the byte stored there.
\<close>

record chunk =
  ch_next :: ptr
  ch_size :: ptrdiff
  ch_offset :: ptrdiff
  ch_data :: "nat \<Rightarrow> byte"

text \<open>\<^verbatim>\<open>struct arena { chunk* ar_head; chunk* ar_tail; }\<close>\<close>

record arena =
  ar_head :: ptr
  ar_tail :: ptr

text \<open>
  What the operating system answers to one acquisition (\<^verbatim>\<open>open("/dev/zero")\<close> followed
  by \<^verbatim>\<open>mmap\<close>): the open fails, the mapping fails, or a block is mapped at an address.
\<close>

datatype os_reply = Open_failed | Map_failed | Mapped ptr

text \<open>
  The memory state: the mapped chunks by address, and the answers the operating system
  will give to the acquisitions still to come (\<open>os st 0\<close> is the next one).
\<close>

record mstate =
  heap :: "ptr \<rightharpoonup> chunk"
  os :: "nat \<Rightarrow> os_reply"

text \<open>
  \<open>Abort\<close> is a failed \<^verbatim>\<open>assert\<close>; \<open>Segv\<close> is an access through the null pointer,
  to a chunk that is not mapped, or outside a chunk's data region.
\<close>

datatype fault = Abort | Segv

section \<open>Macros\<close>

text \<open>
  \<^verbatim>\<open>#define DEFAULT_CHUNK_SIZE (4096L*1024L)/(sizeof(char))\<close> has no outer parentheses, so
  \<^verbatim>\<open>ROUND_UP(x, DEFAULT_CHUNK_SIZE)\<close> negates before it divides; the divisor is 1 and the
  word is the same.
\<close>

definition DEFAULT_CHUNK_SIZE :: "64 word" where
  "DEFAULT_CHUNK_SIZE = (4096 * 1024) div 1"

text \<open>\<^verbatim>\<open>sizeof(chunk)\<close>: one pointer and two \<^verbatim>\<open>ptrdiff_t\<close> fields of 8 bytes each on LP64.\<close>

definition sizeof_chunk :: "64 word" where
  "sizeof_chunk = 24"

definition CHUNK_ALLOC_SIZE :: "64 word \<Rightarrow> 64 word" where
  "CHUNK_ALLOC_SIZE X = sizeof_chunk + 1 * X"

definition ROUND_UP :: "64 word \<Rightarrow> 64 word \<Rightarrow> 64 word" where
  "ROUND_UP val sz = (val + sz - 1) AND (- sz)"

definition ZEROMEM :: cint where
  "ZEROMEM = 0x1"

definition SOFTFAIL :: cint where
  "SOFTFAIL = 0x10"

section \<open>Memory primitives\<close>

text \<open>\<^verbatim>\<open>&c->ch_data[i]\<close> for the chunk at address \<open>p\<close>.\<close>

definition data_addr :: "ptr \<Rightarrow> ptrdiff \<Rightarrow> ptr" where
  "data_addr p i = p + sizeof_chunk + i"

text \<open>\<^verbatim>\<open>memset(data, v, n)\<close> on a data region.\<close>

definition memset_data :: "(nat \<Rightarrow> byte) \<Rightarrow> byte \<Rightarrow> nat \<Rightarrow> (nat \<Rightarrow> byte)" where
  "memset_data d v n = (\<lambda>i. if i < n then v else d i)"

text \<open>\<^verbatim>\<open>memcpy(&dst[off], src, n)\<close> between two data regions.\<close>

definition memcpy_data :: "(nat \<Rightarrow> byte) \<Rightarrow> nat \<Rightarrow> (nat \<Rightarrow> byte) \<Rightarrow> nat \<Rightarrow> (nat \<Rightarrow> byte)" where
  "memcpy_data dst off src n = (\<lambda>i. if off \<le> i \<and> i < off + n then src (i - off) else dst i)"

text \<open>
  A range of \<open>n\<close> bytes from index \<open>off\<close> lies inside a data region of \<open>size\<close> bytes
  (all three are \<^verbatim>\<open>ptrdiff_t\<close> values).
\<close>

definition in_bounds :: "ptrdiff \<Rightarrow> ptrdiff \<Rightarrow> ptrdiff \<Rightarrow> bool" where
  "in_bounds off n sz \<longleftrightarrow> 0 \<le> sint off \<and> 0 \<le> sint n \<and> sint off + sint n \<le> sint sz"

section \<open>Chunk manager\<close>

text \<open>
  \<^verbatim>\<open>alloc_chunk\<close>. Pages mapped from \<^verbatim>\<open>/dev/zero\<close> read as zero; with \<^verbatim>\<open>ZEROMEM\<close> the block
  is zeroed again by \<^verbatim>\<open>memset\<close> before the header is written. One answer of the
  operating system is used by every call that reaches \<^verbatim>\<open>open\<close>. A block mapped at
  address 0 is the null pointer, and writing its header is a fault.
\<close>

definition alloc_chunk :: "ptrdiff \<Rightarrow> cint \<Rightarrow> mstate \<Rightarrow> fault + (ptr \<times> mstate)" where
  "alloc_chunk sz flags st =
     (if sz = 0 then Inr (0, st)
      else
        let allocation_size = CHUNK_ALLOC_SIZE sz in
        if allocation_size <s sz then Inr (0, st)
        else
          let st1 = st\<lparr>os := (\<lambda>n. os st (Suc n))\<rparr> in
          (case os st 0 of
             Open_failed \<Rightarrow> Inr (0, st1)
           | Map_failed \<Rightarrow> if flags AND SOFTFAIL \<noteq> 0 then Inr (0, st1) else Inl Abort
           | Mapped p \<Rightarrow>
               if p = 0 then Inl Segv
               else
                 let zero_pages = (\<lambda>_. 0);
                     d = (if flags AND ZEROMEM \<noteq> 0
                          then memset_data zero_pages 0 (unat allocation_size - unat sizeof_chunk)
                          else zero_pages)
                 in Inr (p, st1\<lparr>heap := (heap st1)(p \<mapsto>
                      \<lparr>ch_next = 0, ch_size = sz, ch_offset = 0, ch_data = d\<rparr>)\<rparr>)))"

text \<open>
  \<^verbatim>\<open>free_chunk\<close>. The heap holds whole chunks, so unmapping the block at \<open>p\<close> removes
  the chunk, whatever length \<^verbatim>\<open>CHUNK_ALLOC_SIZE(chunk->ch_size)\<close> gives; \<^verbatim>\<open>munmap\<close> of a
  mapped block is taken to succeed.
\<close>

definition free_chunk :: "ptr \<Rightarrow> mstate \<Rightarrow> fault + mstate" where
  "free_chunk p st =
     (if p = 0 then Inr st
      else (case heap st p of
              None \<Rightarrow> Inl Segv
            | Some c \<Rightarrow> Inr (st\<lparr>heap := (heap st)(p := None)\<rparr>)))"

section \<open>Used size\<close>

partial_function (option) get_size_loop ::
  "(ptr \<rightharpoonup> chunk) \<Rightarrow> ptr \<Rightarrow> ptrdiff \<Rightarrow> (fault + ptrdiff) option" where
  "get_size_loop h cursor sz =
     (if cursor = 0 then Some (Inr sz)
      else (case h cursor of
              None \<Rightarrow> Some (Inl Segv)
            | Some c \<Rightarrow> get_size_loop h (ch_next c) (sz + ch_offset c)))"

definition arena_get_size :: "arena option \<Rightarrow> mstate \<Rightarrow> (fault + ptrdiff) option" where
  "arena_get_size arena st =
     (case arena of
        None \<Rightarrow> Some (Inr 0)
      | Some a \<Rightarrow> get_size_loop (heap st) (ar_head a) 0)"

section \<open>Allocation\<close>

text \<open>
  The scan of \<^verbatim>\<open>arena_alloc\<close> (\<^verbatim>\<open>while (cursor) { ... }\<close>): \<open>Some a\<close> is the address
  returned from inside the loop, \<open>None\<close> means that the loop ran off the end of the chain.
  The alignment fixup is stored in the chunk before the capacity test.
\<close>

partial_function (option) alloc_scan ::
  "(ptr \<rightharpoonup> chunk) \<Rightarrow> ptr \<Rightarrow> ptrdiff \<Rightarrow> ptrdiff \<Rightarrow>
     (fault + (ptr option \<times> (ptr \<rightharpoonup> chunk))) option" where
  "alloc_scan h cursor alloc_size alignment =
     (if cursor = 0 then Some (Inr (None, h))
      else (case h cursor of
              None \<Rightarrow> Some (Inl Segv)
            | Some c \<Rightarrow>
                let current_address = data_addr cursor (ch_offset c);
                    misalignment = current_address mod alignment;
                    c1 = (if misalignment \<noteq> 0
                          then c\<lparr>ch_offset := ch_offset c + (alignment - misalignment)\<rparr>
                          else c)
                in if alloc_size \<le>s ch_size c1 - ch_offset c1
                   then Some (Inr (Some (data_addr cursor (ch_offset c1)),
                          h(cursor \<mapsto> c1\<lparr>ch_offset := ch_offset c1 + alloc_size\<rparr>)))
                   else alloc_scan (h(cursor \<mapsto> c1)) (ch_next c1) alloc_size alignment))"

text \<open>
  The end of \<^verbatim>\<open>arena_alloc\<close>, after a scan that found no chunk: a new chunk is acquired,
  its offset is advanced by the fixup and by the reservation, and it is linked at the tail.
\<close>

definition alloc_grow ::
  "arena \<Rightarrow> ptrdiff \<Rightarrow> ptrdiff \<Rightarrow> ptrdiff \<Rightarrow> cint \<Rightarrow> mstate \<Rightarrow>
     fault + (ptr \<times> arena option \<times> mstate)" where
  "alloc_grow a alloc_size chunk_size alignment flags st =
     (case alloc_chunk chunk_size flags st of
        Inl f \<Rightarrow> Inl f
      | Inr (new_chunk, st1) \<Rightarrow>
          if new_chunk = 0 then Inr (0, Some a, st1)
          else (case heap st1 new_chunk of
                  None \<Rightarrow> Inl Segv
                | Some nc \<Rightarrow>
                    let current_address = data_addr new_chunk 0;
                        misalignment = current_address mod alignment;
                        nc1 = (if misalignment \<noteq> 0
                               then nc\<lparr>ch_offset := ch_offset nc + (alignment - misalignment)\<rparr>
                               else nc);
                        start_addr = data_addr new_chunk (ch_offset nc1);
                        nc2 = nc1\<lparr>ch_offset := ch_offset nc1 + alloc_size\<rparr>;
                        h2 = (heap st1)(new_chunk \<mapsto> nc2)
                    in (case h2 (ar_tail a) of
                          None \<Rightarrow> Inl Segv
                        | Some t \<Rightarrow>
                            Inr (start_addr, Some (a\<lparr>ar_tail := new_chunk\<rparr>),
                                 st1\<lparr>heap := (h2(ar_tail a \<mapsto> t\<lparr>ch_next := new_chunk\<rparr>))\<rparr>))))"

text \<open>The scan followed by the growth, on the arena as the initialisation left it.\<close>

definition alloc_in_chain ::
  "arena \<Rightarrow> ptrdiff \<Rightarrow> ptrdiff \<Rightarrow> ptrdiff \<Rightarrow> cint \<Rightarrow> mstate \<Rightarrow>
     (fault + (ptr \<times> arena option \<times> mstate)) option" where
  "alloc_in_chain a alloc_size chunk_size alignment flags st =
     (case alloc_scan (heap st) (ar_head a) alloc_size alignment of
        None \<Rightarrow> None
      | Some (Inl f) \<Rightarrow> Some (Inl f)
      | Some (Inr (Some start_addr, h1)) \<Rightarrow> Some (Inr (start_addr, Some a, st\<lparr>heap := h1\<rparr>))
      | Some (Inr (None, h1)) \<Rightarrow>
          Some (alloc_grow a alloc_size chunk_size alignment flags (st\<lparr>heap := h1\<rparr>)))"

text \<open>
  \<^verbatim>\<open>arena_alloc\<close>. The result is the returned pointer (0 is the failure value), the
  arena structure behind the argument, and the memory state.
\<close>

definition arena_alloc ::
  "arena option \<Rightarrow> ptrdiff \<Rightarrow> ptrdiff \<Rightarrow> cint \<Rightarrow> mstate \<Rightarrow>
     (fault + (ptr \<times> arena option \<times> mstate)) option" where
  "arena_alloc arena num_bytes alignment flags st =
     (case arena of
        None \<Rightarrow> Some (Inr (0, None, st))
      | Some a \<Rightarrow>
          if num_bytes = 0 \<or> alignment = 0 \<or> alignment AND (alignment - 1) \<noteq> 0
          then Some (Inr (0, Some a, st))
          else
            let alloc_size = ROUND_UP num_bytes alignment;
                chunk_size = ROUND_UP alloc_size DEFAULT_CHUNK_SIZE
            in if ar_tail a = 0
               then (if ar_head a \<noteq> 0 then Some (Inl Abort)
                     else (case alloc_chunk chunk_size flags st of
                             Inl f \<Rightarrow> Some (Inl f)
                           | Inr (new_head, st1) \<Rightarrow>
                               if new_head = 0 then Some (Inr (0, Some a, st1))
                               else alloc_in_chain (a\<lparr>ar_head := new_head, ar_tail := new_head\<rparr>)
                                      alloc_size chunk_size alignment flags st1))
               else alloc_in_chain a alloc_size chunk_size alignment flags st)"

section \<open>Crop and coalesce\<close>

text \<open>
  The loop of \<^verbatim>\<open>arena_crop_and_coalesce\<close>: the in-use bytes of the chunk at \<open>cursor\<close> are
  copied to \<open>cropped\<close> at \<open>curr_offset\<close>, then the chunk is released. The loop tests
  neither the count against the size of either chunk nor the position against the size of
  the new chunk; \<^verbatim>\<open>memcpy\<close> takes the count as a \<^verbatim>\<open>size_t\<close>.
\<close>

partial_function (option) crop_loop ::
  "mstate \<Rightarrow> ptr \<Rightarrow> ptr \<Rightarrow> ptrdiff \<Rightarrow> (fault + mstate) option" where
  "crop_loop st cropped cursor curr_offset =
     (if cursor = 0 then Some (Inr st)
      else (case heap st cursor of
              None \<Rightarrow> Some (Inl Segv)
            | Some c \<Rightarrow>
                (case heap st cropped of
                   None \<Rightarrow> Some (Inl Segv)
                 | Some cr \<Rightarrow>
                     let st1 = st\<lparr>heap := (heap st)(cropped \<mapsto> cr\<lparr>ch_data :=
                                 memcpy_data (ch_data cr) (unat curr_offset)
                                   (ch_data c) (unat (ch_offset c))\<rparr>)\<rparr>
                     in (case heap st1 cursor of
                           None \<Rightarrow> Some (Inl Segv)
                         | Some c1 \<Rightarrow>
                             (case free_chunk cursor st1 of
                                Inl f \<Rightarrow> Some (Inl f)
                              | Inr st2 \<Rightarrow>
                                  crop_loop st2 cropped (ch_next c1)
                                    (curr_offset + ch_offset c1))))))"

text \<open>
  \<^verbatim>\<open>arena_crop_and_coalesce\<close>. The new chunk's \<^verbatim>\<open>ch_offset\<close> is the 0 that
  \<^verbatim>\<open>alloc_chunk\<close> stored: the function does not assign it.
\<close>

definition arena_crop_and_coalesce ::
  "arena option \<Rightarrow> cint \<Rightarrow> mstate \<Rightarrow> (fault + (ptr \<times> arena option \<times> mstate)) option" where
  "arena_crop_and_coalesce arena flags st =
     (case arena of
        None \<Rightarrow> Some (Inr (0, None, st))
      | Some a \<Rightarrow>
          (case arena_get_size arena st of
             None \<Rightarrow> None
           | Some (Inl f) \<Rightarrow> Some (Inl f)
           | Some (Inr alloc_size) \<Rightarrow>
               (case alloc_chunk alloc_size flags st of
                  Inl f \<Rightarrow> Some (Inl f)
                | Inr (cropped, st1) \<Rightarrow>
                    if cropped = 0 then Some (Inr (0, Some a, st1))
                    else (case crop_loop st1 cropped (ar_head a) 0 of
                            None \<Rightarrow> None
                          | Some (Inl f) \<Rightarrow> Some (Inl f)
                          | Some (Inr st2) \<Rightarrow>
                              Some (Inr (data_addr cropped 0,
                                         Some (a\<lparr>ar_head := cropped, ar_tail := cropped\<rparr>),
                                         st2))))))"

section \<open>Clear, reset, free\<close>

partial_function (option) clear_loop ::
  "(ptr \<rightharpoonup> chunk) \<Rightarrow> ptr \<Rightarrow> (fault + (ptr \<rightharpoonup> chunk)) option" where
  "clear_loop h cursor =
     (if cursor = 0 then Some (Inr h)
      else (case h cursor of
              None \<Rightarrow> Some (Inl Segv)
            | Some c \<Rightarrow>
                if \<not> in_bounds 0 (ch_size c) (ch_size c) then Some (Inl Segv)
                else clear_loop
                       (h(cursor \<mapsto> c\<lparr>ch_offset := 0,
                            ch_data := memset_data (ch_data c) 0 (unat (ch_size c))\<rparr>))
                       (ch_next c)))"

definition arena_clear :: "arena option \<Rightarrow> mstate \<Rightarrow> (fault + mstate) option" where
  "arena_clear arena st =
     (case arena of
        None \<Rightarrow> Some (Inr st)
      | Some a \<Rightarrow>
          (case clear_loop (heap st) (ar_head a) of
             None \<Rightarrow> None
           | Some (Inl f) \<Rightarrow> Some (Inl f)
           | Some (Inr h1) \<Rightarrow> Some (Inr (st\<lparr>heap := h1\<rparr>))))"

partial_function (option) reset_loop ::
  "(ptr \<rightharpoonup> chunk) \<Rightarrow> ptr \<Rightarrow> (fault + (ptr \<rightharpoonup> chunk)) option" where
  "reset_loop h cursor =
     (if cursor = 0 then Some (Inr h)
      else (case h cursor of
              None \<Rightarrow> Some (Inl Segv)
            | Some c \<Rightarrow> reset_loop (h(cursor \<mapsto> c\<lparr>ch_offset := 0\<rparr>)) (ch_next c)))"

definition arena_reset :: "arena option \<Rightarrow> mstate \<Rightarrow> (fault + mstate) option" where
  "arena_reset arena st =
     (case arena of
        None \<Rightarrow> Some (Inr st)
      | Some a \<Rightarrow>
          (case reset_loop (heap st) (ar_head a) of
             None \<Rightarrow> None
           | Some (Inl f) \<Rightarrow> Some (Inl f)
           | Some (Inr h1) \<Rightarrow> Some (Inr (st\<lparr>heap := h1\<rparr>))))"

text \<open>
  Zeroing the first \<open>k\<close> bytes of a little-endian 64-bit field, and
  \<^verbatim>\<open>memset(chunk, 0, n)\<close> from the start of a chunk: the header fields lie at bytes
  0, 8 and 16, the data region starts at byte 24.
\<close>

definition zero_low_bytes :: "64 word \<Rightarrow> nat \<Rightarrow> 64 word" where
  "zero_low_bytes w k = w AND NOT (mask (8 * k))"

definition memset_chunk :: "chunk \<Rightarrow> nat \<Rightarrow> chunk" where
  "memset_chunk c n =
     \<lparr>ch_next = zero_low_bytes (ch_next c) n,
      ch_size = zero_low_bytes (ch_size c) (n - 8),
      ch_offset = zero_low_bytes (ch_offset c) (n - 16),
      ch_data = memset_data (ch_data c) 0 (n - 24)\<rparr>"

text \<open>
  The loop of \<^verbatim>\<open>arena_free\<close>. With \<^verbatim>\<open>ZEROMEM\<close> the whole block, header included, is
  zeroed before \<^verbatim>\<open>cursor->ch_next\<close> is read.
\<close>

partial_function (option) free_loop ::
  "mstate \<Rightarrow> ptr \<Rightarrow> cint \<Rightarrow> (fault + mstate) option" where
  "free_loop st cursor flags =
     (if cursor = 0 then Some (Inr st)
      else (case heap st cursor of
              None \<Rightarrow> Some (Inl Segv)
            | Some c \<Rightarrow>
                let c1 = (if flags AND ZEROMEM \<noteq> 0
                          then memset_chunk c (unat (CHUNK_ALLOC_SIZE (ch_size c)))
                          else c);
                    st1 = st\<lparr>heap := (heap st)(cursor \<mapsto> c1)\<rparr>
                in (case free_chunk cursor st1 of
                      Inl f \<Rightarrow> Some (Inl f)
                    | Inr st2 \<Rightarrow> free_loop st2 (ch_next c1) flags)))"

definition arena_free :: "arena option \<Rightarrow> cint \<Rightarrow> mstate \<Rightarrow> (fault + mstate) option" where
  "arena_free arena flags st =
     (case arena of
        None \<Rightarrow> Some (Inr st)
      | Some a \<Rightarrow> free_loop st (ar_head a) flags)"

section \<open>Copy\<close>

text \<open>
  The three statements that fill a destination chunk from a source chunk:
  \<^verbatim>\<open>dst->ch_offset = src->ch_offset; dst->ch_size = src->ch_size;
  memcpy(dst->ch_data, src->ch_data, src->ch_offset)\<close>. The count is not tested against
  the size of either chunk; \<^verbatim>\<open>memcpy\<close> takes it as a \<^verbatim>\<open>size_t\<close>.
\<close>

definition copy_chunk :: "ptr \<Rightarrow> ptr \<Rightarrow> (ptr \<rightharpoonup> chunk) \<Rightarrow> fault + (ptr \<rightharpoonup> chunk)" where
  "copy_chunk dst src h =
     (case h src of
        None \<Rightarrow> Inl Segv
      | Some s \<Rightarrow>
          (case h dst of
             None \<Rightarrow> Inl Segv
           | Some d \<Rightarrow>
               let h1 = h(dst \<mapsto> d\<lparr>ch_offset := ch_offset s\<rparr>) in
               (case h1 src of
                  None \<Rightarrow> Inl Segv
                | Some s1 \<Rightarrow>
                    (case h1 dst of
                       None \<Rightarrow> Inl Segv
                     | Some d1 \<Rightarrow>
                         let h2 = h1(dst \<mapsto> d1\<lparr>ch_size := ch_size s1\<rparr>) in
                         (case h2 src of
                            None \<Rightarrow> Inl Segv
                          | Some s2 \<Rightarrow>
                              (case h2 dst of
                                 None \<Rightarrow> Inl Segv
                               | Some d2 \<Rightarrow>
                                   Inr (h2(dst \<mapsto> d2\<lparr>ch_data :=
                                     memcpy_data (ch_data d2) 0 (ch_data s2)
                                       (unat (ch_offset s2))\<rparr>))))))))"

text \<open>The loop of \<^verbatim>\<open>arena_copy\<close> over the source chunks after the head.\<close>

partial_function (option) copy_loop ::
  "mstate \<Rightarrow> arena \<Rightarrow> ptr \<Rightarrow> ptr \<Rightarrow> cint \<Rightarrow> (fault + (arena \<times> mstate)) option" where
  "copy_loop st copy_dst src_cursor dst_cursor flags =
     (if src_cursor = 0 then Some (Inr (copy_dst, st))
      else (case heap st src_cursor of
              None \<Rightarrow> Some (Inl Segv)
            | Some sc \<Rightarrow>
                (case alloc_chunk (ch_size sc) flags st of
                   Inl f \<Rightarrow> Some (Inl f)
                 | Inr (new_chunk, st1) \<Rightarrow>
                     if new_chunk = 0
                     then (case arena_free (Some copy_dst) flags st1 of
                             None \<Rightarrow> None
                           | Some (Inl f) \<Rightarrow> Some (Inl f)
                           | Some (Inr st2) \<Rightarrow> Some (Inr (copy_dst, st2)))
                     else (case copy_chunk new_chunk src_cursor (heap st1) of
                             Inl f \<Rightarrow> Some (Inl f)
                           | Inr h2 \<Rightarrow>
                               (case h2 dst_cursor of
                                  None \<Rightarrow> Some (Inl Segv)
                                | Some dc \<Rightarrow>
                                    let h3 = h2(dst_cursor \<mapsto> dc\<lparr>ch_next := new_chunk\<rparr>) in
                                    (case h3 src_cursor of
                                       None \<Rightarrow> Some (Inl Segv)
                                     | Some sc1 \<Rightarrow>
                                         copy_loop (st1\<lparr>heap := h3\<rparr>)
                                           (copy_dst\<lparr>ar_tail := new_chunk\<rparr>)
                                           (ch_next sc1) new_chunk flags))))))"

text \<open>
  \<^verbatim>\<open>arena_copy\<close>. The source arena is \<^verbatim>\<open>const\<close>; the result is the destination arena
  and the memory state. The head chunk is used without a test of what \<^verbatim>\<open>alloc_chunk\<close>
  returned.
\<close>

definition arena_copy ::
  "arena option \<Rightarrow> arena option \<Rightarrow> cint \<Rightarrow> mstate \<Rightarrow>
     (fault + (arena option \<times> mstate)) option" where
  "arena_copy copy_dst copy_src flags st =
     (case (copy_dst, copy_src) of
        (Some d, Some s) \<Rightarrow>
          if ar_head s = 0 \<or> ar_tail s = 0 then Some (Inr (copy_dst, st))
          else (case heap st (ar_head s) of
                  None \<Rightarrow> Some (Inl Segv)
                | Some sh \<Rightarrow>
                    (case alloc_chunk (ch_size sh) flags st of
                       Inl f \<Rightarrow> Some (Inl f)
                     | Inr (dst_head, st1) \<Rightarrow>
                         if dst_head = 0 then Some (Inl Segv)
                         else (case copy_chunk dst_head (ar_head s) (heap st1) of
                                 Inl f \<Rightarrow> Some (Inl f)
                               | Inr h2 \<Rightarrow>
                                   (case h2 (ar_head s) of
                                      None \<Rightarrow> Some (Inl Segv)
                                    | Some sh1 \<Rightarrow>
                                        (case copy_loop (st1\<lparr>heap := h2\<rparr>)
                                                (d\<lparr>ar_head := dst_head, ar_tail := dst_head\<rparr>)
                                                (ch_next sh1) dst_head flags of
                                           None \<Rightarrow> None
                                         | Some (Inl f) \<Rightarrow> Some (Inl f)
                                         | Some (Inr (d1, st2)) \<Rightarrow> Some (Inr (Some d1, st2)))))))
      | _ \<Rightarrow> Some (Inr (copy_dst, st)))"

declare get_size_loop.simps [code]
declare alloc_scan.simps [code]
declare crop_loop.simps [code]
declare clear_loop.simps [code]
declare reset_loop.simps [code]
declare free_loop.simps [code]
declare copy_loop.simps [code]

section \<open>The chain of an arena as a list\<close>

text \<open>
  The chunks reached from \<open>p\<close> through \<^verbatim>\<open>ch_next\<close> are exactly the addresses \<open>ps\<close>, in
  order, each mapped, and the last \<^verbatim>\<open>ch_next\<close> is null.
\<close>

fun is_chain :: "(ptr \<rightharpoonup> chunk) \<Rightarrow> ptr \<Rightarrow> ptr list \<Rightarrow> bool" where
  "is_chain h p [] \<longleftrightarrow> p = 0"
| "is_chain h p (q # qs) \<longleftrightarrow>
     p = q \<and> p \<noteq> 0 \<and> (case h p of None \<Rightarrow> False | Some c \<Rightarrow> is_chain h (ch_next c) qs)"

text \<open>
  The in-use bytes of the chunk at \<open>p\<close> (its first \<^verbatim>\<open>ch_offset\<close> data bytes), their
  concatenation along a chain, and the sum of the offsets along a chain as an integer.
\<close>

definition in_use :: "(ptr \<rightharpoonup> chunk) \<Rightarrow> ptr \<Rightarrow> byte list" where
  "in_use h p = (case h p of None \<Rightarrow> [] | Some c \<Rightarrow> map (ch_data c) [0..<unat (ch_offset c)])"

definition used_bytes :: "(ptr \<rightharpoonup> chunk) \<Rightarrow> ptr list \<Rightarrow> byte list" where
  "used_bytes h ps = concat (map (in_use h) ps)"

definition offset_of :: "(ptr \<rightharpoonup> chunk) \<Rightarrow> ptr \<Rightarrow> ptrdiff" where
  "offset_of h p = (case h p of None \<Rightarrow> 0 | Some c \<Rightarrow> ch_offset c)"

definition used_total :: "(ptr \<rightharpoonup> chunk) \<Rightarrow> ptr list \<Rightarrow> int" where
  "used_total h ps = (\<Sum>p\<leftarrow>ps. sint (offset_of h p))"

section \<open>The invariant of the data model\<close>


section \<open>The environment assumption\<close>


section \<open>Concrete runs\<close>

text \<open>
  \<^verbatim>\<open>arena ar = {0};\<close> and two page-aligned addresses for the blocks the operating
  system maps. \<open>os_two\<close> maps a block at \<open>addr_a\<close>, then one at \<open>addr_b\<close>, then refuses;
  \<open>os_one\<close> maps a block at \<open>addr_a\<close>, then refuses.
\<close>

definition empty_arena :: arena where
  "empty_arena = \<lparr>ar_head = 0, ar_tail = 0\<rparr>"

definition addr_a :: ptr where
  "addr_a = 0x7F0000000000"

definition addr_b :: ptr where
  "addr_b = 0x7F0000800000"

definition os_two :: "nat \<Rightarrow> os_reply" where
  "os_two n = (if n = 0 then Mapped addr_a else if n = 1 then Mapped addr_b else Map_failed)"

definition os_one :: "nat \<Rightarrow> os_reply" where
  "os_one n = (if n = 0 then Mapped addr_a else Map_failed)"

definition boot_two :: mstate where
  "boot_two = \<lparr>heap = Map.empty, os = os_two\<rparr>"

definition boot_one :: mstate where
  "boot_one = \<lparr>heap = Map.empty, os = os_one\<rparr>"

text \<open>A chunk header with a zero-filled data region.\<close>

definition zero_chunk :: "ptr \<Rightarrow> ptrdiff \<Rightarrow> ptrdiff \<Rightarrow> chunk" where
  "zero_chunk nxt sz off = \<lparr>ch_next = nxt, ch_size = sz, ch_offset = off, ch_data = (\<lambda>_. 0)\<rparr>"

text \<open>The arena with the single chunk at \<open>addr_a\<close>.\<close>

definition arena_a :: arena where
  "arena_a = \<lparr>ar_head = addr_a, ar_tail = addr_a\<rparr>"

text \<open>The arena with the chunk at \<open>addr_a\<close> followed by the chunk at \<open>addr_b\<close>.\<close>

definition arena_ab :: arena where
  "arena_ab = \<lparr>ar_head = addr_a, ar_tail = addr_b\<rparr>"

text \<open>The arena with the single chunk at \<open>addr_b\<close>.\<close>

definition arena_b :: arena where
  "arena_b = \<lparr>ar_head = addr_b, ar_tail = addr_b\<rparr>"

text \<open>
  The state after \<^verbatim>\<open>arena_alloc(&ar, 100, 8, 0)\<close> on the empty arena: one chunk with
  offset 104. In \<open>st_used\<close> the operating system still has the block at \<open>addr_b\<close> to
  give; in \<open>st_used_last\<close> it refuses every further mapping.
\<close>

definition st_used :: mstate where
  "st_used = \<lparr>heap = [addr_a \<mapsto> zero_chunk 0 4194304 104], os = (\<lambda>n. os_two (Suc n))\<rparr>"

definition st_used_last :: mstate where
  "st_used_last = \<lparr>heap = [addr_a \<mapsto> zero_chunk 0 4194304 104], os = (\<lambda>n. os_one (Suc n))\<rparr>"

text \<open>
  \<open>os_three\<close> maps blocks at \<open>addr_a\<close>, \<open>addr_b\<close> and \<open>addr_c\<close>, then refuses.
  \<open>st_two_chunks\<close> is the state after \<^verbatim>\<open>arena_alloc(&ar, 100, 8, 0)\<close> and
  \<^verbatim>\<open>arena_alloc(&ar, 4194304, 8, 0)\<close> on the empty arena under \<open>os_three\<close>.
\<close>

definition addr_c :: ptr where
  "addr_c = 0x7F0001000000"

definition os_three :: "nat \<Rightarrow> os_reply" where
  "os_three n = (if n = 0 then Mapped addr_a else if n = 1 then Mapped addr_b
                 else if n = 2 then Mapped addr_c else Map_failed)"

definition boot_three :: mstate where
  "boot_three = \<lparr>heap = Map.empty, os = os_three\<rparr>"

definition arena_c :: arena where
  "arena_c = \<lparr>ar_head = addr_c, ar_tail = addr_c\<rparr>"

definition st_two_chunks :: mstate where
  "st_two_chunks =
     \<lparr>heap = [addr_b \<mapsto> zero_chunk 0 4194304 4194304, addr_a \<mapsto> zero_chunk addr_b 4194304 104],
      os = (\<lambda>n. os_three (Suc (Suc n)))\<rparr>"

text \<open>
  \<open>os_four\<close> maps blocks at \<open>addr_a\<close>, \<open>addr_b\<close>, \<open>addr_c\<close> and \<open>addr_d\<close>, then refuses.
  \<open>st_past_size\<close> is the state after \<^verbatim>\<open>arena_alloc(&ar, 4194304, 32, 0)\<close> on the empty
  arena under \<open>os_four\<close>: the tail chunk has offset 4194312 and size 4194304.
  \<open>st_full_last\<close> is the state after \<^verbatim>\<open>arena_alloc(&ar, 4194304, 8, 0)\<close> on the empty arena
  under \<open>os_one\<close>: one chunk, whose offset is its size.
\<close>

definition addr_d :: ptr where
  "addr_d = 0x7F0001800000"

definition os_four :: "nat \<Rightarrow> os_reply" where
  "os_four n = (if n = 0 then Mapped addr_a else if n = 1 then Mapped addr_b
                else if n = 2 then Mapped addr_c else if n = 3 then Mapped addr_d
                else Map_failed)"

definition boot_four :: mstate where
  "boot_four = \<lparr>heap = Map.empty, os = os_four\<rparr>"

definition arena_cd :: arena where
  "arena_cd = \<lparr>ar_head = addr_c, ar_tail = addr_d\<rparr>"

definition st_past_size :: mstate where
  "st_past_size =
     \<lparr>heap = [addr_b \<mapsto> zero_chunk 0 4194304 4194312, addr_a \<mapsto> zero_chunk addr_b 4194304 8],
      os = (\<lambda>n. os_four (Suc (Suc n)))\<rparr>"

definition st_full_last :: mstate where
  "st_full_last =
     \<lparr>heap = [addr_a \<mapsto> zero_chunk 0 4194304 4194304], os = (\<lambda>n. os_one (Suc n))\<rparr>"

section \<open>Evaluation of the concrete runs\<close>

lemmas model_defs = arena_alloc_def alloc_in_chain_def alloc_grow_def alloc_chunk_def
  arena_get_size_def arena_crop_and_coalesce_def arena_free_def arena_clear_def arena_reset_def
  arena_copy_def copy_chunk_def free_chunk_def memset_chunk_def zero_low_bytes_def
  ROUND_UP_def DEFAULT_CHUNK_SIZE_def CHUNK_ALLOC_SIZE_def sizeof_chunk_def data_addr_def
  ZEROMEM_def SOFTFAIL_def in_bounds_def memcpy_data_def memset_data_def Let_def

lemmas loop_simps = alloc_scan.simps get_size_loop.simps crop_loop.simps free_loop.simps
  copy_loop.simps clear_loop.simps reset_loop.simps

lemmas run_defs = empty_arena_def addr_a_def addr_b_def addr_c_def os_two_def os_one_def
  os_three_def boot_two_def boot_one_def boot_three_def zero_chunk_def arena_a_def arena_ab_def
  arena_b_def arena_c_def st_used_def st_used_last_def st_two_chunks_def

lemmas past_defs = addr_d_def os_four_def boot_four_def arena_cd_def st_past_size_def
  st_full_last_def

text \<open>The concrete states are reached from the empty arena through \<open>arena_alloc\<close>.\<close>

lemma reach_st_used:
  "arena_alloc (Some empty_arena) 100 8 0 boot_two
     = Some (Inr (addr_a + 24, Some arena_a, st_used))"
  by (simp add: model_defs loop_simps run_defs)

lemma reach_st_used_last:
  "arena_alloc (Some empty_arena) 100 8 0 boot_one
     = Some (Inr (addr_a + 24, Some arena_a, st_used_last))"
  by (simp add: model_defs loop_simps run_defs)

lemma reach_st_two_chunks:
  "arena_alloc (Some empty_arena) 100 8 0 boot_three
     = Some (Inr (addr_a + 24, Some arena_a,
          \<lparr>heap = [addr_a \<mapsto> zero_chunk 0 4194304 104], os = (\<lambda>n. os_three (Suc n))\<rparr>))
   \<and> arena_alloc (Some arena_a) 4194304 8 0
        \<lparr>heap = [addr_a \<mapsto> zero_chunk 0 4194304 104], os = (\<lambda>n. os_three (Suc n))\<rparr>
     = Some (Inr (addr_b + 24, Some arena_ab, st_two_chunks))"
  by (simp add: model_defs loop_simps run_defs)

lemma reach_st_past_size:
  "arena_alloc (Some empty_arena) 4194304 32 0 boot_four
     = Some (Inr (addr_b + 32, Some arena_ab, st_past_size))"
  by (simp add: model_defs loop_simps run_defs past_defs)

lemma reach_st_full_last:
  "arena_alloc (Some empty_arena) 4194304 8 0 boot_one
     = Some (Inr (addr_a + 24, Some arena_a, st_full_last))"
  by (simp add: model_defs loop_simps run_defs past_defs)

section \<open>Alignment of the returned address\<close>

lemma mult_pow2_mod: "(c * 2 ^ k :: 64 word) mod 2 ^ k = 0"
proof -
  have "take_bit k (c * 2 ^ k :: 64 word) = 0"
    by (simp add: take_bit_eq_0_iff)
  then show ?thesis by (simp add: take_bit_eq_mod)
qed

lemma aligned_fix:
  fixes x al :: "64 word"
  assumes "al = 2 ^ k"
  shows "(x + (al - x mod al)) mod al = 0"
proof -
  have "x div al * al + x mod al = x" by (rule div_mult_mod_eq)
  then have "x - x mod al = x div al * al" by (simp add: algebra_simps)
  then have "x + (al - x mod al) = (x div al + 1) * al" by (simp add: algebra_simps)
  then show ?thesis unfolding assms by (simp only: mult_pow2_mod)
qed

lemma data_addr_fixup:
  "data_addr p (off + (2 ^ k - data_addr p off mod 2 ^ k)) mod 2 ^ k = 0"
proof -
  have "data_addr p (off + (2 ^ k - data_addr p off mod 2 ^ k))
        = data_addr p off + (2 ^ k - data_addr p off mod 2 ^ k)"
    by (simp add: data_addr_def)
  with aligned_fix [OF refl, of "data_addr p off" k] show ?thesis by simp
qed

lemma data_addr_fixup0:
  "data_addr p (2 ^ k - data_addr p 0 mod 2 ^ k) mod 2 ^ k = 0"
  using data_addr_fixup [of p 0 k] by simp

lemma alloc_scan_aligned:
  "alloc_scan h cursor asz al = Some y \<Longrightarrow> al = 2 ^ k \<Longrightarrow> y = Inr (Some a, h') \<Longrightarrow> a mod al = 0"
proof (induct arbitrary: a h' rule: alloc_scan.raw_induct [rotated 1, consumes 1])
  case (1 scan h cursor asz al y)
  from "1.prems" "1.hyps"(2) show ?case
    by (auto simp: Let_def data_addr_fixup split: if_splits option.splits dest: "1.hyps"(1))
qed

lemma alloc_chunk_offset:
  "alloc_chunk sz flags st = Inr (p, st1) \<Longrightarrow> p \<noteq> 0 \<Longrightarrow>
     \<exists>c. heap st1 p = Some c \<and> ch_size c = sz \<and> ch_offset c = 0 \<and> ch_next c = 0"
  by (auto simp: alloc_chunk_def Let_def split: if_splits os_reply.splits)

lemma alloc_grow_aligned:
  assumes "alloc_grow a asz csz al flags st = Inr (r, a', st')" and "al = 2 ^ k"
  shows "r mod al = 0"
  using assms
  by (auto simp: alloc_grow_def Let_def data_addr_fixup0 split: sum.splits if_splits option.splits
           dest!: alloc_chunk_offset)

lemma alloc_in_chain_aligned:
  assumes "alloc_in_chain a asz csz al flags st = Some (Inr (r, a', st'))" and "al = 2 ^ k"
  shows "r mod al = 0"
  using assms
  by (auto simp: alloc_in_chain_def split: option.splits sum.splits
           dest: alloc_scan_aligned alloc_grow_aligned)

text \<open>
  C2. Whatever the arena, the size and the flags, when the alignment is a power of two
  every pointer that \<open>arena_alloc\<close> returns is a multiple of the alignment, whether it comes
  from a chunk of the chain or from a chunk acquired by the call. (The failure value 0 is
  a multiple too, so the statement needs no case distinction on the result.)
\<close>

theorem arena_alloc_aligned:
  assumes "arena_alloc arena num_bytes alignment flags st = Some (Inr (a, arena', st'))"
    and "alignment = 2 ^ k"
  shows "unat a mod unat alignment = 0"
proof -
  have "a mod alignment = 0"
    using assms
    by (auto simp: arena_alloc_def Let_def split: option.splits if_splits sum.splits
             dest: alloc_in_chain_aligned)
  then have "unat (a mod alignment) = 0" by simp
  then show ?thesis by (simp add: unat_mod)
qed

text \<open>
  Witness for C2: 100 bytes at alignment 64 from the first chunk of a fresh arena, then
  4 MiB at alignment 64, which the first chunk cannot hold and a new chunk serves.
\<close>

theorem arena_alloc_aligned_witness:
  "arena_alloc (Some empty_arena) 100 64 0 boot_two
     = Some (Inr (addr_a + 64, Some arena_a,
          \<lparr>heap = [addr_a \<mapsto> zero_chunk 0 4194304 168], os = (\<lambda>n. os_two (Suc n))\<rparr>))
   \<and> arena_alloc (Some arena_a) 4194304 64 0 st_used
     = Some (Inr (addr_b + 64, Some arena_ab,
          \<lparr>heap = [addr_b \<mapsto> zero_chunk 0 4194304 4194344,
                   addr_a \<mapsto> zero_chunk addr_b 4194304 104],
           os = (\<lambda>n. os_two (Suc (Suc n)))\<rparr>))
   \<and> (64 :: 64 word) = 2 ^ 6
   \<and> addr_a + 64 \<noteq> 0 \<and> addr_b + 64 \<noteq> 0
   \<and> unat (addr_a + 64) mod unat (64 :: 64 word) = 0
   \<and> unat (addr_b + 64) mod unat (64 :: 64 word) = 0"
proof -
  have run1: "arena_alloc (Some empty_arena) 100 64 0 boot_two
     = Some (Inr (addr_a + 64, Some arena_a,
          \<lparr>heap = [addr_a \<mapsto> zero_chunk 0 4194304 168], os = (\<lambda>n. os_two (Suc n))\<rparr>))"
    by (simp add: model_defs loop_simps run_defs)
  have run2: "arena_alloc (Some arena_a) 4194304 64 0 st_used
     = Some (Inr (addr_b + 64, Some arena_ab,
          \<lparr>heap = [addr_b \<mapsto> zero_chunk 0 4194304 4194344,
                   addr_a \<mapsto> zero_chunk addr_b 4194304 104],
           os = (\<lambda>n. os_two (Suc (Suc n)))\<rparr>))"
    by (simp add: model_defs loop_simps run_defs)
  have pow: "(64 :: 64 word) = 2 ^ 6" by simp
  have nz: "addr_a + 64 \<noteq> 0 \<and> addr_b + 64 \<noteq> 0" by (simp add: run_defs)
  note arena_alloc_aligned [OF run1 pow] arena_alloc_aligned [OF run2 pow]
  with run1 run2 pow nz show ?thesis by (intro conjI) blast+
qed

section \<open>Crop and coalesce\<close>

text \<open>
  C1. After \<^verbatim>\<open>arena_alloc(&ar, 100, 8, 0)\<close> on a fresh arena the used size is 104.
  \<open>arena_crop_and_coalesce\<close> succeeds and leaves the single chunk at \<open>addr_b\<close> of size
  104, but the chunk's offset is still the 0 of \<open>alloc_chunk\<close>, so the used size read
  after the call is 0 and not the 104 computed before it.
\<close>

theorem crop_resets_used_size:
  "arena_get_size (Some arena_a) st_used = Some (Inr 104)
   \<and> arena_crop_and_coalesce (Some arena_a) 0 st_used
       = Some (Inr (addr_b + 24, Some arena_b,
            \<lparr>heap = [addr_b \<mapsto> zero_chunk 0 104 0], os = (\<lambda>n. os_two (Suc (Suc n)))\<rparr>))
   \<and> arena_get_size (Some arena_b)
        \<lparr>heap = [addr_b \<mapsto> zero_chunk 0 104 0], os = (\<lambda>n. os_two (Suc (Suc n)))\<rparr>
       = Some (Inr 0)"
  by (simp add: model_defs loop_simps run_defs)

text \<open>
  The same for every run: the loop never writes the header of the new chunk, so after any
  successful \<open>arena_crop_and_coalesce\<close> the used size read from the arena is 0 (or the
  read faults), while the used size before the call was not 0.
\<close>

lemma crop_loop_keeps_header:
  "crop_loop st cropped cursor off = Some y \<Longrightarrow> y = Inr st' \<Longrightarrow>
   (\<forall>c. heap st cropped = Some c \<longrightarrow> ch_offset c = 0 \<and> ch_next c = 0) \<Longrightarrow>
   (\<forall>c. heap st' cropped = Some c \<longrightarrow> ch_offset c = 0 \<and> ch_next c = 0)"
proof (induct arbitrary: st' rule: crop_loop.raw_induct [rotated 1, consumes 1])
  case (1 loop st cropped cursor off y)
  show ?case
  proof (cases "cursor = 0")
    case True
    with "1.hyps"(2) "1.prems" show ?thesis by simp
  next
    case False
    with "1.hyps"(2) "1.prems"(1) obtain c cr where c: "heap st cursor = Some c"
      and cr: "heap st cropped = Some cr"
      by (auto split: option.splits)
    define st1 where "st1 = st\<lparr>heap := (heap st)(cropped \<mapsto> cr\<lparr>ch_data :=
        memcpy_data (ch_data cr) (unat off) (ch_data c) (unat (ch_offset c))\<rparr>)\<rparr>"
    from False c cr "1.hyps"(2) "1.prems"(1) obtain c1 where c1: "heap st1 cursor = Some c1"
      by (auto simp: Let_def st1_def split: if_splits option.splits)
    define st2 where "st2 = st1\<lparr>heap := (heap st1)(cursor := None)\<rparr>"
    from False c cr c1 "1.hyps"(2) "1.prems"(1)
    have rec: "loop st2 cropped (ch_next c1) (off + ch_offset c1) = Some y"
      by (auto simp: Let_def st1_def st2_def free_chunk_def split: if_splits)
    have inv: "\<forall>c. heap st2 cropped = Some c \<longrightarrow> ch_offset c = 0 \<and> ch_next c = 0"
      using "1.prems"(2) cr by (auto simp: st1_def st2_def)
    from "1.hyps"(1) [OF rec "1.prems"(1) inv] show ?thesis .
  qed
qed

lemma crop_used_size_lost:
  assumes run: "arena_crop_and_coalesce (Some a) flags st = Some (Inr (r, Some a', st'))"
    and ok: "r \<noteq> 0"
  shows "\<exists>n. arena_get_size (Some a) st = Some (Inr n) \<and> n \<noteq> 0
           \<and> (arena_get_size (Some a') st' = Some (Inr 0)
                \<or> arena_get_size (Some a') st' = Some (Inl Segv))"
proof -
  from run obtain n where n: "arena_get_size (Some a) st = Some (Inr n)"
    by (auto simp: arena_crop_and_coalesce_def split: option.splits sum.splits)
  with run obtain cropped st1 where al: "alloc_chunk n flags st = Inr (cropped, st1)"
    by (auto simp: arena_crop_and_coalesce_def split: sum.splits)
  with n run ok have nz: "cropped \<noteq> 0"
    by (auto simp: arena_crop_and_coalesce_def split: if_splits)
  with n al run have lp: "crop_loop st1 cropped (ar_head a) 0 = Some (Inr st')"
    and a': "a' = a\<lparr>ar_head := cropped, ar_tail := cropped\<rparr>"
    by (auto simp: arena_crop_and_coalesce_def split: option.splits sum.splits)
  from al nz have n0: "n \<noteq> 0" by (auto simp: alloc_chunk_def)
  from alloc_chunk_offset [OF al nz]
  have "\<forall>c. heap st1 cropped = Some c \<longrightarrow> ch_offset c = 0 \<and> ch_next c = 0" by auto
  from crop_loop_keeps_header [OF lp refl this]
  have hdr: "\<forall>c. heap st' cropped = Some c \<longrightarrow> ch_offset c = 0 \<and> ch_next c = 0" .
  have "arena_get_size (Some a') st' = Some (Inr 0)
          \<or> arena_get_size (Some a') st' = Some (Inl Segv)"
  proof (cases "heap st' cropped")
    case None
    with nz a' show ?thesis by (simp add: arena_get_size_def get_size_loop.simps)
  next
    case (Some c)
    with hdr nz a' show ?thesis by (simp add: arena_get_size_def get_size_loop.simps)
  qed
  with n n0 show ?thesis by blast
qed

text \<open>
  \<open>arena_crop_and_coalesce\<close> has no test of a chunk's offset against its size: on
  \<open>st_past_size\<close>, where the tail chunk's offset is 8 past its size, it copies
  4194312 bytes from that chunk and returns.
\<close>

lemma crop_past_size:
  "arena_get_size (Some arena_ab) st_past_size = Some (Inr 4194320)
   \<and> arena_crop_and_coalesce (Some arena_ab) 0 st_past_size
     = Some (Inr (addr_c + 24, Some arena_c,
          \<lparr>heap = [addr_c \<mapsto> zero_chunk 0 4194320 0],
           os = (\<lambda>n. os_four (Suc (Suc (Suc n))))\<rparr>))"
  by (simp add: model_defs loop_simps run_defs past_defs)

text \<open>
  C9. When the used size of an arena is 0, with no chunk or with chunks whose offsets are
  all 0, \<open>arena_crop_and_coalesce\<close> returns the failure value 0 and changes neither the
  arena nor the memory state: \<open>alloc_chunk\<close> refuses the size 0 before it asks the
  operating system for anything.
\<close>

theorem crop_unused_fails:
  assumes "arena_get_size (Some a) st = Some (Inr 0)"
  shows "arena_crop_and_coalesce (Some a) flags st = Some (Inr (0, Some a, st))"
  using assms by (simp add: arena_crop_and_coalesce_def alloc_chunk_def)

text \<open>
  Witness for C9: the arena with one chunk after \<open>arena_reset\<close>, and the arena that
  never held a chunk.
\<close>

theorem crop_unused_fails_witness:
  "arena_reset (Some arena_a) st_used
     = Some (Inr (st_used\<lparr>heap := [addr_a \<mapsto> zero_chunk 0 4194304 0]\<rparr>))
   \<and> arena_get_size (Some arena_a) (st_used\<lparr>heap := [addr_a \<mapsto> zero_chunk 0 4194304 0]\<rparr>)
       = Some (Inr 0)
   \<and> arena_crop_and_coalesce (Some arena_a) 0
        (st_used\<lparr>heap := [addr_a \<mapsto> zero_chunk 0 4194304 0]\<rparr>)
       = Some (Inr (0, Some arena_a, st_used\<lparr>heap := [addr_a \<mapsto> zero_chunk 0 4194304 0]\<rparr>))
   \<and> arena_get_size (Some empty_arena) boot_two = Some (Inr 0)
   \<and> arena_crop_and_coalesce (Some empty_arena) 0 boot_two
       = Some (Inr (0, Some empty_arena, boot_two))"
proof -
  have reset: "arena_reset (Some arena_a) st_used
     = Some (Inr (st_used\<lparr>heap := [addr_a \<mapsto> zero_chunk 0 4194304 0]\<rparr>))"
    by (simp add: model_defs loop_simps run_defs)
  have unused: "arena_get_size (Some arena_a)
      (st_used\<lparr>heap := [addr_a \<mapsto> zero_chunk 0 4194304 0]\<rparr>) = Some (Inr 0)"
    by (simp add: model_defs loop_simps run_defs)
  have fresh: "arena_get_size (Some empty_arena) boot_two = Some (Inr 0)"
    by (simp add: model_defs loop_simps run_defs)
  note crop_unused_fails [OF unused, of 0] crop_unused_fails [OF fresh, of 0]
  with reset unused fresh show ?thesis by (intro conjI) blast+
qed

section \<open>Allocation: offsets and failures\<close>

text \<open>
  C3. One call \<^verbatim>\<open>arena_alloc(&ar, 4194304, 32, 0)\<close> on a fresh arena: the first chunk
  (size 4194304) is padded by 8 and then cannot hold the reservation, a second chunk of
  the same size is acquired, padded by 8 and charged 4194304 with no capacity test. Its
  offset 4194312 exceeds its size 4194304.
\<close>

theorem alloc_offset_exceeds_size:
  "arena_alloc (Some empty_arena) 4194304 32 0 boot_two
     = Some (Inr (addr_b + 32, Some arena_ab,
          \<lparr>heap = [addr_b \<mapsto> zero_chunk 0 4194304 4194312,
                   addr_a \<mapsto> zero_chunk addr_b 4194304 8],
           os = (\<lambda>n. os_two (Suc (Suc n)))\<rparr>))
   \<and> ch_size (zero_chunk 0 4194304 4194312) <s ch_offset (zero_chunk 0 4194304 4194312)"
  by (simp add: model_defs loop_simps run_defs)

text \<open>
  C4. \<^verbatim>\<open>arena_alloc(&ar, -8, 8, 0)\<close> on the arena with one chunk at offset 104: the guard
  tests \<^verbatim>\<open>!num_bytes\<close> only, so the negative size passes, a non-null pointer is returned
  and the chunk's offset goes down from 104 to 96.
\<close>

theorem alloc_negative_size_accepted:
  "sint (- 8 :: ptrdiff) < 0
   \<and> arena_alloc (Some arena_a) (- 8) 8 0 st_used
       = Some (Inr (addr_a + 128, Some arena_a,
            st_used\<lparr>heap := [addr_a \<mapsto> zero_chunk 0 4194304 96]\<rparr>))
   \<and> addr_a + 128 \<noteq> 0
   \<and> heap st_used addr_a = Some (zero_chunk 0 4194304 104)"
  by (simp add: model_defs loop_simps run_defs)

text \<open>
  What the guard of \<open>arena_alloc\<close> does reject: an absent arena, the size 0, the
  alignment 0 and an alignment that shares a bit with its predecessor. The call then
  returns 0 and changes nothing.
\<close>

lemma alloc_guard_rejects:
  assumes "arena = None \<or> num_bytes = 0 \<or> alignment = 0 \<or> alignment AND (alignment - 1) \<noteq> 0"
  shows "arena_alloc arena num_bytes alignment flags st = Some (Inr (0, arena, st))"
  using assms by (auto simp: arena_alloc_def split: option.splits)

section \<open>Release\<close>

text \<open>
  Counterexample to C5 as stated: \<open>arena_free\<close> on the arena with one chunk releases
  the chunk and leaves \<^verbatim>\<open>ar_head\<close> as it was; the second \<open>arena_free\<close> on the same arena
  value reads the released chunk.
\<close>

theorem free_twice_faults:
  "arena_free (Some arena_a) 0 st_used = Some (Inr (st_used\<lparr>heap := Map.empty\<rparr>))
   \<and> arena_free (Some arena_a) 0 (st_used\<lparr>heap := Map.empty\<rparr>) = Some (Inl Segv)"
  by (simp add: model_defs loop_simps run_defs)

text \<open>
  C5, amended. \<open>arena_clear\<close>, \<open>arena_reset\<close> and \<open>arena_free\<close> return at once, with the
  state unchanged, when the arena is absent. On an arena that has no chunk (its head is
  null) \<open>arena_free\<close> returns with the state unchanged, so a second \<open>arena_free\<close> on the
  same arena does the same.
\<close>

theorem release_absent_or_empty:
  "arena_clear None st = Some (Inr st)
   \<and> arena_reset None st = Some (Inr st)
   \<and> arena_free None flags st = Some (Inr st)
   \<and> (ar_head a = 0 \<longrightarrow>
        arena_free (Some a) flags st = Some (Inr st)
        \<and> (\<exists>st1. arena_free (Some a) flags st = Some (Inr st1)
               \<and> arena_free (Some a) flags st1 = Some (Inr st)))"
  by (simp add: arena_clear_def arena_reset_def arena_free_def free_loop.simps)

text \<open>Witness for C5: the arena that never held a chunk, freed twice with \<^verbatim>\<open>ZEROMEM\<close>.\<close>

theorem release_absent_or_empty_witness:
  "ar_head empty_arena = 0
   \<and> arena_clear None boot_two = Some (Inr boot_two)
   \<and> arena_reset None boot_two = Some (Inr boot_two)
   \<and> arena_free None ZEROMEM boot_two = Some (Inr boot_two)
   \<and> arena_free (Some empty_arena) ZEROMEM boot_two = Some (Inr boot_two)
   \<and> (\<exists>st1. arena_free (Some empty_arena) ZEROMEM boot_two = Some (Inr st1)
          \<and> arena_free (Some empty_arena) ZEROMEM st1 = Some (Inr boot_two))"
proof -
  have hd: "ar_head empty_arena = 0" by (simp add: empty_arena_def)
  from release_absent_or_empty [of boot_two ZEROMEM empty_arena] hd
  show ?thesis by blast
qed

section \<open>Copy: failures\<close>

text \<open>
  C7. Two runs of \<open>arena_copy\<close> with \<^verbatim>\<open>SOFTFAIL\<close> into an empty destination. When the
  operating system refuses the first mapping, the head chunk is written through the null
  pointer that \<open>alloc_chunk\<close> returned. When it maps the head at \<open>addr_c\<close> and refuses the
  second mapping, the head is released but the destination still has \<open>addr_c\<close> as head and
  tail: the chunk it names is not mapped, and reading its used size faults.
\<close>

theorem copy_failure_not_rolled_back:
  "arena_copy (Some empty_arena) (Some arena_a) SOFTFAIL st_used_last = Some (Inl Segv)
   \<and> arena_copy (Some empty_arena) (Some arena_ab) SOFTFAIL st_two_chunks
       = Some (Inr (Some arena_c, st_two_chunks\<lparr>os := (\<lambda>_. Map_failed)\<rparr>))
   \<and> ar_head arena_c \<noteq> 0
   \<and> heap (st_two_chunks\<lparr>os := (\<lambda>_. Map_failed)\<rparr>) (ar_head arena_c) = None
   \<and> arena_get_size (Some arena_c) (st_two_chunks\<lparr>os := (\<lambda>_. Map_failed)\<rparr>)
       = Some (Inl Segv)"
  by (simp add: model_defs loop_simps run_defs)

text \<open>
  A source arena without chunks: \<open>arena_copy\<close> returns at once and leaves the
  destination arena and the memory as they were.
\<close>

lemma copy_empty_source:
  assumes "ar_head s = 0 \<or> ar_tail s = 0"
  shows "arena_copy (Some d) (Some s) flags st = Some (Inr (Some d, st))"
  using assms by (auto simp: arena_copy_def)

section \<open>Growth: the size of the acquired chunk\<close>

lemma alloc_scan_sizes:
  "alloc_scan h cursor asz al = Some y \<Longrightarrow> y = Inr (r, h') \<Longrightarrow>
     map_option ch_size (h' p) = map_option ch_size (h p)"
proof (induct arbitrary: r h' rule: alloc_scan.raw_induct [rotated 1, consumes 1])
  case (1 scan h cursor asz al y)
  show ?case
  proof (cases "cursor = 0")
    case True
    with "1.hyps"(2) "1.prems" show ?thesis by simp
  next
    case False
    with "1.hyps"(2) "1.prems" obtain c where c: "h cursor = Some c"
      by (auto split: option.splits)
    define c1 where "c1 = (if data_addr cursor (ch_offset c) mod al \<noteq> 0
       then c\<lparr>ch_offset := ch_offset c + (al - data_addr cursor (ch_offset c) mod al)\<rparr> else c)"
    have sz: "ch_size c1 = ch_size c" by (simp add: c1_def)
    show ?thesis
    proof (cases "asz \<le>s ch_size c1 - ch_offset c1")
      case True
      with False c "1.hyps"(2) "1.prems"
      have "h' = h(cursor \<mapsto> c1\<lparr>ch_offset := ch_offset c1 + asz\<rparr>)"
        by (simp add: Let_def c1_def)
      with c sz show ?thesis by simp
    next
      case nofit: False
      with False c "1.hyps"(2)
      have rec: "scan (h(cursor \<mapsto> c1)) (ch_next c1) asz al = Some y"
        by (simp add: Let_def c1_def)
      have "map_option ch_size (h' p) = map_option ch_size ((h(cursor \<mapsto> c1)) p)"
        by (rule "1.hyps"(1) [OF rec "1.prems"])
      with c sz show ?thesis by simp
    qed
  qed
qed

lemma alloc_chunk_null:
  "alloc_chunk sz flags st = Inr (0, st1) \<Longrightarrow> heap st1 = heap st"
  by (auto simp: alloc_chunk_def Let_def split: if_splits os_reply.splits)

lemma alloc_grow_tail:
  assumes run: "alloc_grow a asz csz al flags st = Inr (r, Some a', st')"
  shows "(ar_tail a' = ar_tail a \<and> heap st' = heap st)
       \<or> (\<exists>c. heap st' (ar_tail a') = Some c \<and> ch_size c = csz)"
proof -
  from run obtain new st1 where al: "alloc_chunk csz flags st = Inr (new, st1)"
    by (auto simp: alloc_grow_def split: sum.splits)
  show ?thesis
  proof (cases "new = 0")
    case True
    with al run alloc_chunk_null [of csz flags st st1] show ?thesis
      by (simp add: alloc_grow_def)
  next
    case False
    from alloc_chunk_offset [OF al False] obtain c where "heap st1 new = Some c" "ch_size c = csz"
      by blast
    with False al run show ?thesis
      by (auto simp: alloc_grow_def Let_def split: if_splits option.splits)
  qed
qed

lemma alloc_in_chain_tail:
  assumes run: "alloc_in_chain a asz csz al flags st = Some (Inr (r, Some a', st'))"
  shows "(ar_tail a' = ar_tail a
            \<and> (\<forall>p. map_option ch_size (heap st' p) = map_option ch_size (heap st p)))
       \<or> (\<exists>c. heap st' (ar_tail a') = Some c \<and> ch_size c = csz)"
proof -
  from run consider
    (fit) s h1 where "alloc_scan (heap st) (ar_head a) asz al = Some (Inr (Some s, h1))"
        "st' = st\<lparr>heap := h1\<rparr>" "a' = a"
    | (grow) h1 where "alloc_scan (heap st) (ar_head a) asz al = Some (Inr (None, h1))"
        "alloc_grow a asz csz al flags (st\<lparr>heap := h1\<rparr>) = Inr (r, Some a', st')"
    by (auto simp: alloc_in_chain_def split: option.splits sum.splits)
  then show ?thesis
  proof cases
    case fit
    then show ?thesis using alloc_scan_sizes [OF fit(1) refl] by simp
  next
    case grow
    from alloc_grow_tail [OF grow(2)] alloc_scan_sizes [OF grow(1) refl]
    show ?thesis by auto
  qed
qed

lemma alloc_tail_chunk_size:
  assumes run: "arena_alloc (Some a) num_bytes alignment flags st = Some (Inr (r, Some a', st'))"
    and tl: "ar_tail a' \<noteq> ar_tail a"
  shows "\<exists>c. heap st' (ar_tail a') = Some c
           \<and> ch_size c = ROUND_UP (ROUND_UP num_bytes alignment) DEFAULT_CHUNK_SIZE"
proof -
  define csz where "csz = ROUND_UP (ROUND_UP num_bytes alignment) DEFAULT_CHUNK_SIZE"
  from run tl have guard: "\<not> (num_bytes = 0 \<or> alignment = 0 \<or> alignment AND (alignment - 1) \<noteq> 0)"
    by (auto simp: arena_alloc_def split: if_splits)
  show ?thesis
  proof (cases "ar_tail a = 0")
    case False
    with run guard have "alloc_in_chain a (ROUND_UP num_bytes alignment) csz alignment flags st
        = Some (Inr (r, Some a', st'))"
      by (simp add: arena_alloc_def Let_def csz_def)
    from alloc_in_chain_tail [OF this] tl show ?thesis by (auto simp: csz_def)
  next
    case True
    with run guard obtain new st1 where
      al: "alloc_chunk csz flags st = Inr (new, st1)" and nz: "new \<noteq> 0"
      and ch: "alloc_in_chain (a\<lparr>ar_head := new, ar_tail := new\<rparr>) (ROUND_UP num_bytes alignment)
                 csz alignment flags st1 = Some (Inr (r, Some a', st'))"
      using tl
      by (auto simp: arena_alloc_def Let_def csz_def split: if_splits sum.splits)
    from alloc_chunk_offset [OF al nz] obtain c where c: "heap st1 new = Some c" "ch_size c = csz"
      by blast
    from alloc_in_chain_tail [OF ch] c show ?thesis
      by (auto simp: csz_def) (metis (no_types) c option.simps(9) option.map_sel map_option_eq_Some)
  qed
qed

text \<open>Rounding up to the default granularity, read as numbers.\<close>

lemma nonneg_uint:
  fixes w :: "64 word"
  assumes "0 \<le> sint w"
  shows "uint w = sint w"
proof -
  have "sint w < 2 ^ 63" using sint_lt [of w] by simp
  then have "sint w < 2 ^ 64" by simp
  with assms have "take_bit 64 (sint w) = sint w" by (simp add: take_bit_int_eq_self)
  then show ?thesis using uint_sint [of w] by simp
qed

lemma nonneg_unat:
  fixes w :: "64 word"
  assumes "0 \<le> sint w"
  shows "unat w < 2 ^ 63"
proof -
  have "uint w < 2 ^ 63" using nonneg_uint [OF assms] sint_lt [of w] by simp
  then show ?thesis by (simp add: unat_eq_nat_uint nat_less_iff del: nat_uint_eq)
qed

lemma round_nat:
  fixes a m :: nat
  assumes "0 < m"
  shows "a \<le> (a + (m - 1)) - (a + (m - 1)) mod m"
    and "(a + (m - 1)) - (a + (m - 1)) mod m < a + m"
    and "((a + (m - 1)) - (a + (m - 1)) mod m) mod m = 0"
proof -
  define b where "b = a + (m - 1)"
  have "b mod m < m" using assms by simp
  then have le: "b mod m \<le> m - 1" by linarith
  have ba: "b = a + (m - 1)" by (rule b_def)
  show "a \<le> (a + (m - 1)) - (a + (m - 1)) mod m"
    unfolding ba [symmetric] using le ba by linarith
  show "(a + (m - 1)) - (a + (m - 1)) mod m < a + m"
    unfolding ba [symmetric] using assms ba by linarith
  show "((a + (m - 1)) - (a + (m - 1)) mod m) mod m = 0"
    by (simp add: minus_mod_eq_div_mult)
qed

lemma word_mod_le: "(a::64 word) mod b \<le> a"
  by (simp add: word_le_nat_alt unat_mod)

lemma and_not_mask_diff: "(y::64 word) AND NOT (mask n) = y - take_bit n y"
proof -
  have "y - take_bit n y = y AND NOT (take_bit n y)"
    by (rule disjunctive_diff_eq_and_not, rule bit_eqI) (auto simp: bit_simps)
  also have "\<dots> = y AND NOT (mask n)"
    by (rule bit_eqI) (auto simp: bit_simps)
  finally show ?thesis by simp
qed

lemma ROUND_UP_default:
  "ROUND_UP x DEFAULT_CHUNK_SIZE = (x + 4194303) - (x + 4194303) mod 4194304"
proof -
  have "(4194304::64 word) = 2 ^ 22" by simp
  then have "- (4194304::64 word) = NOT (mask 22)"
    by (simp only: minus_exp_eq_not_mask)
  moreover have "take_bit 22 (x + 4194303) = (x + 4194303) mod 4194304"
    by (simp add: take_bit_eq_mod)
  ultimately show ?thesis
    using and_not_mask_diff [of "x + 4194303" 22]
    by (simp add: ROUND_UP_def DEFAULT_CHUNK_SIZE_def add.commute)
qed

lemma ROUND_UP_default_unat:
  assumes "unat x \<le> 2 ^ 63 - 2 ^ 22"
  shows "unat (ROUND_UP x DEFAULT_CHUNK_SIZE)
           = (unat x + 4194303) - (unat x + 4194303) mod 4194304"
proof -
  have "unat x + unat (4194303::64 word) < 2 ^ LENGTH(64)" using assms by simp
  then have y: "unat (x + 4194303) = unat x + 4194303"
    by (simp only: unat_add_lem) simp
  have "(x + 4194303) mod 4194304 \<le> x + 4194303" by (rule word_mod_le)
  then have "unat ((x + 4194303) - (x + 4194303) mod 4194304)
      = unat (x + 4194303) - unat ((x + 4194303) mod 4194304)"
    by (rule unat_sub)
  then show ?thesis by (simp add: ROUND_UP_default y unat_mod)
qed

lemma ROUND_UP_default_bounds:
  assumes "0 \<le> sint x" and "sint x \<le> 2 ^ 63 - 2 ^ 22"
  shows "sint x \<le> sint (ROUND_UP x DEFAULT_CHUNK_SIZE)"
    and "sint (ROUND_UP x DEFAULT_CHUNK_SIZE) < sint x + 4194304"
    and "sint (ROUND_UP x DEFAULT_CHUNK_SIZE) mod 4194304 = 0"
proof -
  let ?r = "ROUND_UP x DEFAULT_CHUNK_SIZE"
  have ux: "uint x = sint x" using assms(1) by (rule nonneg_uint)
  then have nx: "int (unat x) = sint x" by simp
  with assms(2) have "int (unat x) \<le> int (2 ^ 63 - 2 ^ 22)" by simp
  then have le: "unat x \<le> 2 ^ 63 - 2 ^ 22" by (simp only: of_nat_le_iff)
  have r: "unat ?r = (unat x + (4194304 - 1)) - (unat x + (4194304 - 1)) mod 4194304"
    using ROUND_UP_default_unat [OF le] by simp
  have lo: "unat x \<le> unat ?r" unfolding r by (rule round_nat(1)) simp
  have hi: "unat ?r < unat x + 4194304" unfolding r by (rule round_nat(2)) simp
  have dv: "unat ?r mod 4194304 = 0" unfolding r by (rule round_nat(3)) simp
  from hi le have "unat ?r < 2 ^ 63" by simp
  then have "int (unat ?r) < 2 ^ 63"
    by (simp only: of_nat_less_iff [symmetric, where 'a = int]) simp
  then have up: "uint ?r < 2 ^ 63" by simp
  have "- (2 ^ 63) \<le> uint ?r" by (rule order_trans [of _ 0]) simp_all
  from this up have "signed_take_bit 63 (uint ?r) = uint ?r"
    by (rule signed_take_bit_int_eq_self)
  then have "sint ?r = uint ?r"
    by (simp add: sint_uint)
  then have sr: "sint ?r = uint ?r" .
  have "x \<le> ?r" using lo by (simp only: word_le_nat_alt)
  then show "sint x \<le> sint ?r" unfolding sr ux [symmetric] by (simp only: word_le_def)
  have "int (unat ?r) < int (unat x + 4194304)" using hi by (simp only: of_nat_less_iff)
  then show "sint ?r < sint x + 4194304" unfolding sr ux [symmetric] by simp
  have "int (unat ?r mod 4194304) = 0" using dv by simp
  then have "int (unat ?r) mod int 4194304 = 0" by (simp only: zmod_int)
  then show "sint ?r mod 4194304 = 0" unfolding sr by simp
qed

text \<open>
  Counterexample to C6 as stated: \<^verbatim>\<open>arena_alloc(&ar, 4194304, 8, 0)\<close> on the arena with
  one chunk at offset 104. No chunk can hold the reservation of 4194304 bytes, the arena
  grows, and the chunk appended at the tail has size 4194304, not twice the reservation.
\<close>

theorem growth_not_doubled:
  "arena_alloc (Some arena_a) 4194304 8 0 st_used
     = Some (Inr (addr_b + 24, Some arena_ab,
          \<lparr>heap = [addr_b \<mapsto> zero_chunk 0 4194304 4194304,
                   addr_a \<mapsto> zero_chunk addr_b 4194304 104],
           os = (\<lambda>n. os_two (Suc (Suc n)))\<rparr>))
   \<and> ar_tail arena_ab = addr_b
   \<and> ROUND_UP 4194304 8 = 4194304
   \<and> \<not> 2 * sint (ROUND_UP 4194304 8) \<le> sint (ch_size (zero_chunk 0 4194304 4194304))"
  by (simp add: model_defs loop_simps run_defs)

text \<open>
  C6, amended. Whenever \<open>arena_alloc\<close> changes the arena's tail, that is, whenever it
  appends a chunk it acquired (the growth after a scan that found no room, or the first
  chunk of an empty arena), the chunk at the new tail has as size the reservation rounded
  up with \<^verbatim>\<open>ROUND_UP\<close> to the default granularity. For a reservation between 0 and
  \<open>2^63 - 2^22\<close> that size is the least multiple of 4194304 that is at least the
  reservation: it is never less than the reservation and can be equal to it.
\<close>

theorem growth_chunk_size:
  assumes "arena_alloc (Some a) num_bytes alignment flags st = Some (Inr (r, Some a', st'))"
    and "ar_tail a' \<noteq> ar_tail a"
  shows "(\<exists>c. heap st' (ar_tail a') = Some c
            \<and> ch_size c = ROUND_UP (ROUND_UP num_bytes alignment) DEFAULT_CHUNK_SIZE)
       \<and> (0 \<le> sint (ROUND_UP num_bytes alignment)
            \<and> sint (ROUND_UP num_bytes alignment) \<le> 2 ^ 63 - 2 ^ 22 \<longrightarrow>
          sint (ROUND_UP num_bytes alignment)
            \<le> sint (ROUND_UP (ROUND_UP num_bytes alignment) DEFAULT_CHUNK_SIZE)
          \<and> sint (ROUND_UP (ROUND_UP num_bytes alignment) DEFAULT_CHUNK_SIZE)
              < sint (ROUND_UP num_bytes alignment) + 4194304
          \<and> sint (ROUND_UP (ROUND_UP num_bytes alignment) DEFAULT_CHUNK_SIZE) mod 4194304 = 0)"
  using alloc_tail_chunk_size [OF assms] ROUND_UP_default_bounds [of "ROUND_UP num_bytes alignment"]
  by blast

text \<open>Witness for C6: the run of the counterexample.\<close>

theorem growth_chunk_size_witness:
  "arena_alloc (Some arena_a) 4194304 8 0 st_used
     = Some (Inr (addr_b + 24, Some arena_ab,
          \<lparr>heap = [addr_b \<mapsto> zero_chunk 0 4194304 4194304,
                   addr_a \<mapsto> zero_chunk addr_b 4194304 104],
           os = (\<lambda>n. os_two (Suc (Suc n)))\<rparr>))
   \<and> ar_tail arena_ab \<noteq> ar_tail arena_a
   \<and> 0 \<le> sint (ROUND_UP 4194304 8)
   \<and> sint (ROUND_UP 4194304 8) \<le> 2 ^ 63 - 2 ^ 22
   \<and> (\<exists>c. heap \<lparr>heap = [addr_b \<mapsto> zero_chunk 0 4194304 4194304,
                        addr_a \<mapsto> zero_chunk addr_b 4194304 104],
                  os = (\<lambda>n. os_two (Suc (Suc n)))\<rparr> (ar_tail arena_ab) = Some c
          \<and> ch_size c = ROUND_UP (ROUND_UP 4194304 8) DEFAULT_CHUNK_SIZE)
   \<and> sint (ROUND_UP 4194304 8) \<le> sint (ROUND_UP (ROUND_UP 4194304 8) DEFAULT_CHUNK_SIZE)
   \<and> sint (ROUND_UP (ROUND_UP 4194304 8) DEFAULT_CHUNK_SIZE) < sint (ROUND_UP 4194304 8) + 4194304
   \<and> sint (ROUND_UP (ROUND_UP 4194304 8) DEFAULT_CHUNK_SIZE) mod 4194304 = 0"
proof -
  have run: "arena_alloc (Some arena_a) 4194304 8 0 st_used
     = Some (Inr (addr_b + 24, Some arena_ab,
          \<lparr>heap = [addr_b \<mapsto> zero_chunk 0 4194304 4194304,
                   addr_a \<mapsto> zero_chunk addr_b 4194304 104],
           os = (\<lambda>n. os_two (Suc (Suc n)))\<rparr>))"
    by (simp add: model_defs loop_simps run_defs)
  have tl: "ar_tail arena_ab \<noteq> ar_tail arena_a" by (simp add: run_defs)
  have lo: "0 \<le> sint (ROUND_UP 4194304 8)" by (simp add: ROUND_UP_def)
  have hi: "sint (ROUND_UP 4194304 8) \<le> 2 ^ 63 - 2 ^ 22" by (simp add: ROUND_UP_def)
  from growth_chunk_size [OF run tl] run tl lo hi show ?thesis by blast
qed

section \<open>Allocation that fails during growth\<close>

text \<open>
  C8. \<^verbatim>\<open>arena_alloc(&ar, 4194304, 256, SOFTFAIL)\<close> on the arena with one chunk at offset
  104, when the operating system refuses the mapping. The call returns 0, yet the scan
  has stored the alignment padding in the chunk before it tested the chunk's capacity,
  and the offset is now 232: the used size is 104 before the failed call and 232 after
  it.
\<close>

theorem failed_alloc_moves_offset:
  "arena_get_size (Some arena_a) st_used_last = Some (Inr 104)
   \<and> arena_alloc (Some arena_a) 4194304 256 SOFTFAIL st_used_last
       = Some (Inr (0, Some arena_a,
            \<lparr>heap = [addr_a \<mapsto> zero_chunk 0 4194304 232],
             os = (\<lambda>n. os_one (Suc (Suc n)))\<rparr>))
   \<and> arena_get_size (Some arena_a)
        \<lparr>heap = [addr_a \<mapsto> zero_chunk 0 4194304 232], os = (\<lambda>n. os_one (Suc (Suc n)))\<rparr>
       = Some (Inr 232)"
  by (simp add: model_defs loop_simps run_defs)

text \<open>
  The same failed call on \<open>st_full_last\<close>, where the chunk's offset is its size: the
  stored padding takes the offset to 4194536, past the size 4194304.
\<close>

lemma failed_alloc_exceeds_size:
  "arena_alloc (Some arena_a) 4194304 256 SOFTFAIL st_full_last
     = Some (Inr (0, Some arena_a,
          \<lparr>heap = [addr_a \<mapsto> zero_chunk 0 4194304 4194536],
           os = (\<lambda>n. os_one (Suc (Suc n)))\<rparr>))
   \<and> ch_size (zero_chunk 0 4194304 4194536) <s ch_offset (zero_chunk 0 4194304 4194536)"
  by (simp add: model_defs loop_simps run_defs past_defs)

lemma fixup_lt_alignment:
  fixes x al :: "64 word"
  assumes "x mod al \<noteq> 0" and "al \<noteq> 0"
  shows "unat (al - x mod al) < unat al"
proof -
  have "0 < al" using assms(2) by (simp add: word_neq_0_conv)
  then have lt: "x mod al < al" by (rule word_mod_less_divisor)
  then have "x mod al \<le> al" by simp
  then have "unat (al - x mod al) = unat al - unat (x mod al)" by (rule unat_sub)
  moreover have "0 < unat (x mod al)" using assms by (simp add: unat_gt_0)
  moreover have "unat (x mod al) < unat al" using lt by (simp add: word_less_nat_alt)
  ultimately show ?thesis by linarith
qed

text \<open>
  A scan that runs off the end of the chain maps no chunk and unmaps none; a chunk it
  leaves is as before, or has its offset advanced by the fixup of its cursor. (A chunk
  whose cursor is aligned is not changed by a second visit.)
\<close>

lemma alloc_scan_frame:
  "alloc_scan h cursor asz al = Some y \<Longrightarrow> y = Inr (None, h1) \<Longrightarrow> al = 2 ^ k \<Longrightarrow>
     (h p = None \<longrightarrow> h1 p = None)
     \<and> (\<forall>c. h p = Some c \<longrightarrow>
          h1 p = Some c
          \<or> (data_addr p (ch_offset c) mod al \<noteq> 0
              \<and> h1 p = Some (c\<lparr>ch_offset := ch_offset c + (al - data_addr p (ch_offset c) mod al)\<rparr>)))"
proof (induct arbitrary: h1 rule: alloc_scan.raw_induct [rotated 1, consumes 1])
  case (1 scan h cursor asz al y)
  show ?case
  proof (cases "cursor = 0")
    case True
    with "1.hyps"(2) "1.prems" show ?thesis by simp
  next
    case False
    with "1.hyps"(2) "1.prems" obtain c0 where c0: "h cursor = Some c0"
      by (auto split: option.splits)
    define c1 where "c1 = (if data_addr cursor (ch_offset c0) mod al \<noteq> 0
       then c0\<lparr>ch_offset := ch_offset c0 + (al - data_addr cursor (ch_offset c0) mod al)\<rparr> else c0)"
    from False c0 "1.hyps"(2) "1.prems"(1)
    have rec: "scan (h(cursor \<mapsto> c1)) (ch_next c1) asz al = Some y"
      by (auto simp: Let_def c1_def split: if_splits)
    note IH = "1.hyps"(1) [OF rec "1.prems"(1) "1.prems"(2)]
    show ?thesis
    proof (cases "p = cursor")
      case False
      with IH show ?thesis by simp
    next
      case True
      have aligned: "data_addr cursor (ch_offset c1) mod al = 0"
        using data_addr_fixup [of cursor "ch_offset c0" k] "1.prems"(2)
        by (auto simp: c1_def)
      from IH True aligned have "h1 p = Some c1" by simp
      with True c0 show ?thesis by (auto simp: c1_def)
    qed
  qed
qed

lemma pow2_guard:
  assumes "k < 64"
  shows "(2 ^ k :: 64 word) \<noteq> 0" and "(2 ^ k :: 64 word) AND (2 ^ k - 1) = 0"
proof -
  show "(2 ^ k :: 64 word) \<noteq> 0" using assms by simp
  have "(2 ^ k :: 64 word) - 1 = mask k" by (simp add: mask_eq_decr_exp)
  moreover have "(2 ^ k :: 64 word) AND mask k = 0"
    by (rule bit_eqI) (auto simp: bit_simps)
  ultimately show "(2 ^ k :: 64 word) AND (2 ^ k - 1) = 0" by simp
qed

lemma failed_growth_run:
  assumes nb: "num_bytes \<noteq> 0" and guard: "alignment \<noteq> 0" "alignment AND (alignment - 1) = 0"
    and nonempty: "ar_tail a \<noteq> 0"
    and scan: "alloc_scan (heap st) (ar_head a) (ROUND_UP num_bytes alignment) alignment
                 = Some (Inr (None, h1))"
    and fail: "alloc_chunk (ROUND_UP (ROUND_UP num_bytes alignment) DEFAULT_CHUNK_SIZE) flags
                 (st\<lparr>heap := h1\<rparr>) = Inr (0, st1)"
  shows "arena_alloc (Some a) num_bytes alignment flags st = Some (Inr (0, Some a, st1))"
proof -
  have "alloc_grow a (ROUND_UP num_bytes alignment)
          (ROUND_UP (ROUND_UP num_bytes alignment) DEFAULT_CHUNK_SIZE) alignment flags
          (st\<lparr>heap := h1\<rparr>) = Inr (0, Some a, st1)"
    unfolding alloc_grow_def fail by simp
  then have "alloc_in_chain a (ROUND_UP num_bytes alignment)
          (ROUND_UP (ROUND_UP num_bytes alignment) DEFAULT_CHUNK_SIZE) alignment flags st
          = Some (Inr (0, Some a, st1))"
    unfolding alloc_in_chain_def scan by simp
  then show ?thesis
    using nb guard nonempty by (simp add: arena_alloc_def Let_def)
qed

text \<open>
  The extent of the defect. Take a non-empty arena, a size that is not 0 and a
  power-of-two alignment, and let the scan find no chunk with room and the acquisition
  of the new chunk fail. Then \<open>arena_alloc\<close> returns the failure value with the arena
  structure unchanged; no chunk is mapped or unmapped; and the stored padding, which is
  less than the alignment, is the only change to a chunk.
\<close>

lemma failed_growth_frame:
  assumes nb: "num_bytes \<noteq> 0" and al: "alignment = 2 ^ k" and k: "k < 64"
    and nonempty: "ar_tail a \<noteq> 0"
    and scan: "alloc_scan (heap st) (ar_head a) (ROUND_UP num_bytes alignment) alignment
                 = Some (Inr (None, h1))"
    and fail: "alloc_chunk (ROUND_UP (ROUND_UP num_bytes alignment) DEFAULT_CHUNK_SIZE) flags
                 (st\<lparr>heap := h1\<rparr>) = Inr (0, st1)"
  shows "arena_alloc (Some a) num_bytes alignment flags st = Some (Inr (0, Some a, st1))
       \<and> (heap st p = None \<longrightarrow> heap st1 p = None)
       \<and> (\<forall>c. heap st p = Some c \<longrightarrow>
            heap st1 p = Some c
            \<or> (data_addr p (ch_offset c) mod alignment \<noteq> 0
                \<and> unat (alignment - data_addr p (ch_offset c) mod alignment) < unat alignment
                \<and> heap st1 p = Some (c\<lparr>ch_offset :=
                     ch_offset c + (alignment - data_addr p (ch_offset c) mod alignment)\<rparr>)))"
proof (intro conjI allI impI)
  have guard: "alignment \<noteq> 0" "alignment AND (alignment - 1) = 0"
    using pow2_guard [OF k] al by simp_all
  show "arena_alloc (Some a) num_bytes alignment flags st = Some (Inr (0, Some a, st1))"
    by (rule failed_growth_run [OF nb guard nonempty scan fail])
  have h1: "heap st1 = h1" using alloc_chunk_null [OF fail] by simp
  note fr = alloc_scan_frame [OF scan refl al, of p]
  show "heap st1 p = None" if "heap st p = None"
    using fr that h1 by simp
  show "heap st1 p = Some c
            \<or> (data_addr p (ch_offset c) mod alignment \<noteq> 0
                \<and> unat (alignment - data_addr p (ch_offset c) mod alignment) < unat alignment
                \<and> heap st1 p = Some (c\<lparr>ch_offset :=
                     ch_offset c + (alignment - data_addr p (ch_offset c) mod alignment)\<rparr>))"
    if c: "heap st p = Some c" for c
  proof (cases "heap st1 p = Some c")
    case True
    then show ?thesis by simp
  next
    case False
    with fr c h1 have mis: "data_addr p (ch_offset c) mod alignment \<noteq> 0"
      and upd: "heap st1 p = Some (c\<lparr>ch_offset :=
                     ch_offset c + (alignment - data_addr p (ch_offset c) mod alignment)\<rparr>)"
      by auto
    from fixup_lt_alignment [OF mis guard(1)] mis upd show ?thesis by simp
  qed
qed

text \<open>
  An instance: the run above. The cursor of the chunk is misaligned by 128 for the
  alignment 256, and its offset goes from 104 to 104 + (256 - 128).
\<close>

lemma failed_growth_frame_example:
  "(4194304 :: ptrdiff) \<noteq> 0 \<and> (256 :: ptrdiff) = 2 ^ 8 \<and> (8 :: nat) < 64
   \<and> ar_tail arena_a \<noteq> 0
   \<and> alloc_scan (heap st_used_last) (ar_head arena_a) (ROUND_UP 4194304 256) 256
       = Some (Inr (None, [addr_a \<mapsto> zero_chunk 0 4194304 232]))
   \<and> alloc_chunk (ROUND_UP (ROUND_UP 4194304 256) DEFAULT_CHUNK_SIZE) SOFTFAIL
        (st_used_last\<lparr>heap := [addr_a \<mapsto> zero_chunk 0 4194304 232]\<rparr>)
       = Inr (0, \<lparr>heap = [addr_a \<mapsto> zero_chunk 0 4194304 232],
                  os = (\<lambda>n. os_one (Suc (Suc n)))\<rparr>)
   \<and> heap st_used_last addr_a = Some (zero_chunk 0 4194304 104)
   \<and> arena_alloc (Some arena_a) 4194304 256 SOFTFAIL st_used_last
       = Some (Inr (0, Some arena_a,
            \<lparr>heap = [addr_a \<mapsto> zero_chunk 0 4194304 232],
             os = (\<lambda>n. os_one (Suc (Suc n)))\<rparr>))
   \<and> data_addr addr_a 104 mod 256 = 128
   \<and> heap \<lparr>heap = [addr_a \<mapsto> zero_chunk 0 4194304 232],
            os = (\<lambda>n. os_one (Suc (Suc n)))\<rparr> addr_a
       = Some (zero_chunk 0 4194304 (104 + (256 - 128)))"
proof -
  have nb: "(4194304 :: ptrdiff) \<noteq> 0" by simp
  have al: "(256 :: ptrdiff) = 2 ^ 8" by simp
  have k: "(8 :: nat) < 64" by simp
  have ne: "ar_tail arena_a \<noteq> 0" by (simp add: run_defs)
  have scan: "alloc_scan (heap st_used_last) (ar_head arena_a) (ROUND_UP 4194304 256) 256
       = Some (Inr (None, [addr_a \<mapsto> zero_chunk 0 4194304 232]))"
    by (simp add: model_defs loop_simps run_defs)
  have fail: "alloc_chunk (ROUND_UP (ROUND_UP 4194304 256) DEFAULT_CHUNK_SIZE) SOFTFAIL
        (st_used_last\<lparr>heap := [addr_a \<mapsto> zero_chunk 0 4194304 232]\<rparr>)
       = Inr (0, \<lparr>heap = [addr_a \<mapsto> zero_chunk 0 4194304 232],
                  os = (\<lambda>n. os_one (Suc (Suc n)))\<rparr>)"
    by (simp add: model_defs loop_simps run_defs)
  have before: "heap st_used_last addr_a = Some (zero_chunk 0 4194304 104)"
    by (simp add: run_defs)
  have mis: "data_addr addr_a 104 mod 256 = 128"
    by (simp add: data_addr_def sizeof_chunk_def addr_a_def)
  have after: "heap \<lparr>heap = [addr_a \<mapsto> zero_chunk 0 4194304 232],
            os = (\<lambda>n. os_one (Suc (Suc n)))\<rparr> addr_a
       = Some (zero_chunk 0 4194304 (104 + (256 - 128)))"
    by simp
  from failed_growth_frame [OF nb al k ne scan fail, of addr_a]
  have run: "arena_alloc (Some arena_a) 4194304 256 SOFTFAIL st_used_last
       = Some (Inr (0, Some arena_a,
            \<lparr>heap = [addr_a \<mapsto> zero_chunk 0 4194304 232],
             os = (\<lambda>n. os_one (Suc (Suc n)))\<rparr>))"
    by (rule conjunct1)
  show ?thesis
    by (intro conjI) (fact nb al k ne scan fail before run mis after)+
qed

section \<open>Copy: the source is not modified\<close>










text \<open>
  \<open>arena_copy\<close> has no test of a chunk's offset against its size either: on
  \<open>st_past_size\<close> it copies 4194312 bytes into the new chunk of size 4194304 and
  returns. The theorem above does not speak of such a state. In this run the chunks of
  the source are as before. The bytes copied past the data region stay with the new
  chunk: a block is mapped in whole pages, and 8 bytes past the 4194304 of the data
  region lie inside it. What a longer copy, running past the mapped block, overwrites
  is not part of the model.
\<close>

lemma copy_past_size:
  "arena_copy (Some empty_arena) (Some arena_ab) 0 st_past_size
     = Some (Inr (Some arena_cd,
          \<lparr>heap = [addr_b \<mapsto> zero_chunk 0 4194304 4194312,
                   addr_a \<mapsto> zero_chunk addr_b 4194304 8,
                   addr_d \<mapsto> zero_chunk 0 4194304 4194312,
                   addr_c \<mapsto> zero_chunk addr_d 4194304 8],
           os = (\<lambda>n. os_four (Suc (Suc (Suc (Suc n)))))\<rparr>))"
  by (simp add: model_defs loop_simps run_defs past_defs)

section \<open>Crop and coalesce: the coalesced chunk\<close>

lemma is_chain_cong:
  "is_chain h p ps \<Longrightarrow> (\<And>x. x \<in> set ps \<Longrightarrow> h' x = h x) \<Longrightarrow> is_chain h' p ps"
  by (induction ps arbitrary: p) (auto split: option.splits)

lemma is_chain_unique:
  "is_chain h p xs \<Longrightarrow> is_chain h p ys \<Longrightarrow> xs = ys"
proof (induction xs arbitrary: p ys)
  case Nil
  then show ?case by (cases ys) auto
next
  case (Cons x xs)
  then show ?case by (cases ys) (auto split: option.splits)
qed

lemma is_chain_suffix:
  "is_chain h p (us @ q # vs) \<Longrightarrow> is_chain h q (q # vs)"
proof (induction us arbitrary: p)
  case Nil
  then show ?case by auto
next
  case (Cons u us)
  from Cons.prems have "\<exists>c::chunk. is_chain h (ch_next c) (us @ q # vs)"
    by (cases "h u") auto
  then obtain c :: chunk where "is_chain h (ch_next c) (us @ q # vs)" by blast
  then show ?case by (rule Cons.IH)
qed

lemma is_chain_distinct: "is_chain h p ps \<Longrightarrow> distinct ps"
proof (induction ps arbitrary: p)
  case Nil
  then show ?case by simp
next
  case (Cons q qs)
  from Cons.prems obtain c where c: "h q = Some c" and rest: "is_chain h (ch_next c) qs"
    and pq: "p = q"
    by (auto split: option.splits)
  have "q \<notin> set qs"
  proof
    assume "q \<in> set qs"
    then obtain us vs where qs: "qs = us @ q # vs" by (auto simp: in_set_conv_decomp)
    with rest have "is_chain h q (q # vs)" using is_chain_suffix by blast
    with Cons.prems pq have "q # vs = q # qs" using is_chain_unique by blast
    with qs show False by simp
  qed
  with Cons.IH [OF rest] show ?case by simp
qed

lemma get_size_loop_chain:
  "is_chain h p ps \<Longrightarrow> get_size_loop h p acc = Some (Inr (acc + sum_list (map (offset_of h) ps)))"
proof (induction ps arbitrary: p acc)
  case Nil
  then show ?case by (simp add: get_size_loop.simps)
next
  case (Cons q qs)
  from Cons.prems obtain c where c: "h q = Some c" and rest: "is_chain h (ch_next c) qs"
    and q: "p = q" "q \<noteq> 0"
    by (auto split: option.splits)
  have oq: "offset_of h q = ch_offset c" using c by (simp add: offset_of_def)
  from Cons.IH [OF rest, of "acc + ch_offset c"] c q show ?case
    by (subst get_size_loop.simps) (simp add: oq add.assoc)
qed


lemma is_chain_mapped: "is_chain h p ps \<Longrightarrow> x \<in> set ps \<Longrightarrow> h x \<noteq> None"
  by (induction ps arbitrary: p) (auto split: option.splits)

lemma used_total_cong:
  "(\<And>x. x \<in> set ps \<Longrightarrow> h' x = h x) \<Longrightarrow> used_total h' ps = used_total h ps"
  unfolding used_total_def offset_of_def
  by (rule arg_cong [where f = sum_list], rule map_cong) simp_all

lemma used_bytes_cong:
  "(\<And>x. x \<in> set ps \<Longrightarrow> h' x = h x) \<Longrightarrow> used_bytes h' ps = used_bytes h ps"
  unfolding used_bytes_def in_use_def
  by (rule arg_cong [where f = concat], rule map_cong) simp_all

lemma used_total_nonneg:
  "\<forall>p\<in>set ps. 0 \<le> sint (offset_of h p) \<Longrightarrow> 0 \<le> used_total h ps"
  by (induction ps) (simp_all add: used_total_def)

lemma sint_add_nonneg:
  fixes x y :: "64 word"
  assumes "0 \<le> sint x" and "0 \<le> sint y" and "sint x + sint y < 2 ^ 63"
  shows "sint (x + y) = sint x + sint y" and "unat (x + y) = unat x + unat y"
proof -
  have "- (2 ^ 63) \<le> sint x + sint y" using assms(1,2) by simp
  with assms(3) have "signed_take_bit 63 (sint x + sint y) = sint x + sint y"
    by (simp add: signed_take_bit_int_eq_self)
  then show "sint (x + y) = sint x + sint y" by (simp add: sint_word_ariths)
  have "unat x < 2 ^ 63" using assms(1) by (rule nonneg_unat)
  moreover have "unat y < 2 ^ 63" using assms(2) by (rule nonneg_unat)
  ultimately have "unat x + unat y < 2 ^ LENGTH(64)" by simp
  then show "unat (x + y) = unat x + unat y" by (simp only: unat_add_lem)
qed

lemma used_total_sint:
  assumes "\<forall>p\<in>set ps. 0 \<le> sint (offset_of h p)" and "used_total h ps < 2 ^ 63"
  shows "sint (sum_list (map (offset_of h) ps)) = used_total h ps"
  using assms
proof (induction ps)
  case Nil
  then show ?case by (simp add: used_total_def)
next
  case (Cons q qs)
  have nn: "0 \<le> used_total h qs" using Cons.prems(1) by (simp add: used_total_nonneg)
  have q0: "0 \<le> sint (offset_of h q)" using Cons.prems(1) by simp
  have split: "used_total h (q # qs) = sint (offset_of h q) + used_total h qs"
    by (simp add: used_total_def)
  with Cons.prems(2) q0 have "used_total h qs < 2 ^ 63" by simp
  with Cons.IH Cons.prems(1) have ih: "sint (sum_list (map (offset_of h) qs)) = used_total h qs"
    by simp
  have "sint (offset_of h q + sum_list (map (offset_of h) qs))
          = sint (offset_of h q) + sint (sum_list (map (offset_of h) qs))"
    using q0 nn Cons.prems(2) split by (intro sint_add_nonneg(1)) (simp_all add: ih)
  with ih split show ?case by simp
qed

lemma used_bytes_length:
  "\<forall>p\<in>set ps. 0 \<le> sint (offset_of h p) \<Longrightarrow>
     int (length (used_bytes h ps)) = used_total h ps"
proof (induction ps)
  case Nil
  then show ?case by (simp add: used_bytes_def used_total_def)
next
  case (Cons q qs)
  have q0: "0 \<le> sint (offset_of h q)" using Cons.prems by simp
  have "int (length (in_use h q)) = sint (offset_of h q)"
  proof (cases "h q")
    case None
    then show ?thesis by (simp add: in_use_def offset_of_def)
  next
    case (Some c)
    with q0 have "uint (ch_offset c) = sint (ch_offset c)"
      by (intro nonneg_uint) (simp add: offset_of_def)
    with Some show ?thesis by (simp add: in_use_def offset_of_def)
  qed
  moreover have "int (length (used_bytes h qs)) = used_total h qs"
    using Cons by simp
  ultimately show ?case by (simp add: used_bytes_def used_total_def)
qed

text \<open>
  The loop on a well-formed chain that does not contain the new chunk: every chunk of the
  chain is released, and the new chunk's data from \<open>off\<close> on is the concatenation of the
  in-use bytes, provided they fit.
\<close>

lemma crop_loop_chain:
  assumes "is_chain (heap st) cursor ps"
    and "cropped \<notin> set ps"
    and "heap st cropped = Some cr"
    and "\<forall>p\<in>set ps. \<forall>c. heap st p = Some c \<longrightarrow> in_bounds 0 (ch_offset c) (ch_size c)"
    and "0 \<le> sint off"
    and "sint off + used_total (heap st) ps \<le> sint (ch_size cr)"
  shows "\<exists>st' d. crop_loop st cropped cursor off = Some (Inr st')
           \<and> os st' = os st
           \<and> (\<forall>x. heap st' x = (if x \<in> set ps then None
                                 else if x = cropped then Some (cr\<lparr>ch_data := d\<rparr>)
                                 else heap st x))
           \<and> (\<forall>i < unat off. d i = ch_data cr i)
           \<and> map d [unat off ..< unat off + length (used_bytes (heap st) ps)]
               = used_bytes (heap st) ps"
  using assms
proof (induction ps arbitrary: st cursor cr off)
  case Nil
  then have "crop_loop st cropped cursor off = Some (Inr st)"
    by (simp add: crop_loop.simps)
  moreover have "\<forall>x. heap st x = (if x = cropped then Some (cr\<lparr>ch_data := ch_data cr\<rparr>)
                                   else heap st x)"
    using Nil.prems(3) by simp
  ultimately show ?case
    by (intro exI [of _ st] exI [of _ "ch_data cr"]) (simp add: used_bytes_def)
next
  case (Cons q qs)
  from Cons.prems(1) obtain c where c: "heap st q = Some c"
    and rest: "is_chain (heap st) (ch_next c) qs" and q: "cursor = q" "q \<noteq> 0"
    by (auto split: option.splits)
  from Cons.prems(2) have qc: "q \<noteq> cropped" and cq: "cropped \<notin> set qs" by auto
  from Cons.prems(1) have "distinct (q # qs)" by (rule is_chain_distinct)
  then have qq: "q \<notin> set qs" by simp
  have bq: "in_bounds 0 (ch_offset c) (ch_size c)" using Cons.prems(4) c by simp
  then have c0: "0 \<le> sint (ch_offset c)" by (simp add: in_bounds_def)
  have offs: "\<forall>p\<in>set (q # qs). 0 \<le> sint (offset_of (heap st) p)"
  proof
    fix p assume "p \<in> set (q # qs)"
    with Cons.prems(4) show "0 \<le> sint (offset_of (heap st) p)"
      by (cases "heap st p") (auto simp: offset_of_def in_bounds_def)
  qed
  then have nn: "0 \<le> used_total (heap st) qs" by (simp add: used_total_nonneg)
  have split: "used_total (heap st) (q # qs) = sint (ch_offset c) + used_total (heap st) qs"
    using c by (simp add: used_total_def offset_of_def)
  have fits: "sint off + sint (ch_offset c) \<le> sint (ch_size cr)"
    using Cons.prems(6) split nn by simp
  have "sint (ch_size cr) < 2 ^ 63" using sint_lt [of "ch_size cr"] by simp
  with fits have small: "sint off + sint (ch_offset c) < 2 ^ 63" by simp
  note add = sint_add_nonneg [OF Cons.prems(5) c0 small]
  define cr1 where "cr1 = cr\<lparr>ch_data :=
      memcpy_data (ch_data cr) (unat off) (ch_data c) (unat (ch_offset c))\<rparr>"
  define st2 where "st2 = st\<lparr>heap := ((heap st)(cropped \<mapsto> cr1))(q := None)\<rparr>"
  have step: "crop_loop st cropped cursor off
                = crop_loop st2 cropped (ch_next c) (off + ch_offset c)"
    using c q qc Cons.prems(3,5) bq fits c0
    by (subst crop_loop.simps)
       (simp add: Let_def free_chunk_def st2_def cr1_def)
  have same: "\<And>x. x \<in> set qs \<Longrightarrow> heap st2 x = heap st x"
    using qq cq by (auto simp: st2_def)
  have chain2: "is_chain (heap st2) (ch_next c) qs"
    using rest same by (rule is_chain_cong)
  have cr2: "heap st2 cropped = Some cr1" using qc by (simp add: st2_def)
  have b2: "\<forall>p\<in>set qs. \<forall>c. heap st2 p = Some c \<longrightarrow> in_bounds 0 (ch_offset c) (ch_size c)"
    using Cons.prems(4) same by simp
  have off2: "0 \<le> sint (off + ch_offset c)" using add(1) Cons.prems(5) c0 by simp
  have tot2: "used_total (heap st2) qs = used_total (heap st) qs"
    using same by (rule used_total_cong)
  have byt2: "used_bytes (heap st2) qs = used_bytes (heap st) qs"
    using same by (rule used_bytes_cong)
  have fit2: "sint (off + ch_offset c) + used_total (heap st2) qs \<le> sint (ch_size cr1)"
    using Cons.prems(6) split add(1) tot2 by (simp add: cr1_def)
  from Cons.IH [OF chain2 cq cr2 b2 off2 fit2]
  obtain st' d where run: "crop_loop st2 cropped (ch_next c) (off + ch_offset c) = Some (Inr st')"
    and os': "os st' = os st2"
    and heap': "\<forall>x. heap st' x = (if x \<in> set qs then None
                                   else if x = cropped then Some (cr1\<lparr>ch_data := d\<rparr>)
                                   else heap st2 x)"
    and low: "\<forall>i < unat (off + ch_offset c). d i = ch_data cr1 i"
    and cat: "map d [unat (off + ch_offset c) ..<
                unat (off + ch_offset c) + length (used_bytes (heap st2) qs)]
                = used_bytes (heap st2) qs"
    by blast
  define o' where "o' = unat off"
  define n where "n = unat (ch_offset c)"
  define m where "m = length (used_bytes (heap st) qs)"
  have un: "unat (off + ch_offset c) = o' + n" using add(2) by (simp add: o'_def n_def)
  have low': "\<forall>i < o' + n. d i = memcpy_data (ch_data cr) o' (ch_data c) n i"
    using low un by (simp add: cr1_def o'_def n_def)
  have first: "map d [o' ..< o' + n] = map (ch_data c) [0 ..< n]"
    by (rule nth_equalityI) (simp_all add: low' memcpy_data_def)
  have cat': "map d [o' + n ..< o' + n + m] = used_bytes (heap st) qs"
    using cat un byt2 by (simp add: m_def)
  have "[o' ..< o' + (n + m)] = [o' ..< o' + n] @ [o' + n ..< o' + n + m]"
    using upt_add_eq_append [of o' "o' + n" m] by (simp add: add.assoc)
  then have "map d [o' ..< o' + (n + m)] = map (ch_data c) [0 ..< n] @ used_bytes (heap st) qs"
    using first cat' by simp
  moreover have "used_bytes (heap st) (q # qs) = map (ch_data c) [0 ..< n] @ used_bytes (heap st) qs"
    using c by (simp add: used_bytes_def in_use_def n_def)
  ultimately have bytes: "map d [unat off ..< unat off + length (used_bytes (heap st) (q # qs))]
      = used_bytes (heap st) (q # qs)"
    by (simp add: o'_def m_def)
  have lowd: "\<forall>i < unat off. d i = ch_data cr i"
    using low' by (simp add: memcpy_data_def o'_def)
  have heapd: "\<forall>x. heap st' x = (if x \<in> set (q # qs) then None
                                  else if x = cropped then Some (cr\<lparr>ch_data := d\<rparr>)
                                  else heap st x)"
    using heap' qc by (simp add: st2_def cr1_def)
  have "os st' = os st" using os' by (simp add: st2_def)
  with step run heapd lowd bytes show ?case by (intro exI [of _ st'] exI [of _ d]) simp
qed


lemma alloc_chunk_mapped:
  assumes "0 < sint sz" and "sint sz \<le> 2 ^ 63 - 25"
    and "os st 0 = Mapped q" and "q \<noteq> 0"
  shows "\<exists>st1 d. alloc_chunk sz flags st = Inr (q, st1)
           \<and> os st1 = (\<lambda>n. os st (Suc n))
           \<and> heap st1 = (heap st)(q \<mapsto>
                \<lparr>ch_next = 0, ch_size = sz, ch_offset = 0, ch_data = d\<rparr>)"
proof -
  have nz: "sz \<noteq> 0" using assms(1) by auto
  have "sint (24 :: 64 word) = 24" by simp
  then have "sint (24 + sz) = sint (24 :: 64 word) + sint sz"
    using assms(1,2) by (intro sint_add_nonneg(1)) simp_all
  then have "\<not> CHUNK_ALLOC_SIZE sz <s sz"
    by (simp add: CHUNK_ALLOC_SIZE_def sizeof_chunk_def word_sless_alt)
  with nz assms(3,4) show ?thesis
    by (auto simp: alloc_chunk_def Let_def)
qed

text \<open>
  \<open>arena_crop_and_coalesce\<close> on an arena whose chain is well formed, whose chunks have
  \<open>0 \<le> offset \<le> size\<close> and whose used size is positive, when the operating system maps
  the new block at a fresh address \<open>q\<close>: the call succeeds and returns the start of the
  data of \<open>q\<close>, head and tail are \<open>q\<close>, the former chunks are unmapped, the new chunk has
  no successor, has the used size as its size and holds the concatenation of the in-use
  bytes in chain order. Its offset is 0, so the used size read afterwards is 0.
\<close>

lemma crop_coalesces:
  assumes chain: "is_chain (heap st) (ar_head a) ps"
    and bounds: "\<forall>p\<in>set ps. \<forall>c. heap st p = Some c \<longrightarrow> in_bounds 0 (ch_offset c) (ch_size c)"
    and used: "0 < used_total (heap st) ps"
    and small: "used_total (heap st) ps \<le> 2 ^ 63 - 25"
    and os: "os st 0 = Mapped q" and q: "q \<noteq> 0" and fresh: "heap st q = None"
  shows "\<exists>st' c n. arena_get_size (Some a) st = Some (Inr n)
           \<and> sint n = used_total (heap st) ps
           \<and> arena_crop_and_coalesce (Some a) flags st
               = Some (Inr (data_addr q 0, Some (a\<lparr>ar_head := q, ar_tail := q\<rparr>), st'))
           \<and> (\<forall>x. heap st' x = (if x \<in> set ps then None
                                 else if x = q then Some c else heap st x))
           \<and> ch_next c = 0
           \<and> sint (ch_size c) = used_total (heap st) ps
           \<and> map (ch_data c) [0 ..< length (used_bytes (heap st) ps)] = used_bytes (heap st) ps
           \<and> int (length (used_bytes (heap st) ps)) = used_total (heap st) ps
           \<and> arena_get_size (Some (a\<lparr>ar_head := q, ar_tail := q\<rparr>)) st' = Some (Inr 0)"
proof -
  define sz where "sz = sum_list (map (offset_of (heap st)) ps)"
  have offs: "\<forall>p\<in>set ps. 0 \<le> sint (offset_of (heap st) p)"
  proof
    fix p assume "p \<in> set ps"
    with bounds show "0 \<le> sint (offset_of (heap st) p)"
      by (cases "heap st p") (auto simp: offset_of_def in_bounds_def)
  qed
  have "used_total (heap st) ps < 2 ^ 63" using small by simp
  with offs have ssz: "sint sz = used_total (heap st) ps"
    unfolding sz_def by (rule used_total_sint)
  have size: "arena_get_size (Some a) st = Some (Inr sz)"
    using get_size_loop_chain [OF chain, of 0] by (simp add: arena_get_size_def sz_def)
  from alloc_chunk_mapped [of sz st q flags] used small os q ssz
  obtain st1 d where al: "alloc_chunk sz flags st = Inr (q, st1)"
    and os1: "os st1 = (\<lambda>n. os st (Suc n))"
    and h1: "heap st1 = (heap st)(q \<mapsto> \<lparr>ch_next = 0, ch_size = sz, ch_offset = 0, ch_data = d\<rparr>)"
    by auto
  define cr where "cr = \<lparr>ch_next = 0, ch_size = sz, ch_offset = 0, ch_data = d\<rparr>"
  have qps: "q \<notin> set ps" using is_chain_mapped [OF chain] fresh by blast
  then have same: "\<And>x. x \<in> set ps \<Longrightarrow> heap st1 x = heap st x" by (auto simp: h1)
  have chain1: "is_chain (heap st1) (ar_head a) ps" using chain same by (rule is_chain_cong)
  have cr1: "heap st1 q = Some cr" by (simp add: h1 cr_def)
  have b1: "\<forall>p\<in>set ps. \<forall>c. heap st1 p = Some c \<longrightarrow> in_bounds 0 (ch_offset c) (ch_size c)"
    using bounds same by simp
  have tot1: "used_total (heap st1) ps = used_total (heap st) ps"
    using same by (rule used_total_cong)
  have byt1: "used_bytes (heap st1) ps = used_bytes (heap st) ps"
    using same by (rule used_bytes_cong)
  have z: "0 \<le> sint (0 :: ptrdiff)" by simp
  have fit: "sint (0 :: ptrdiff) + used_total (heap st1) ps \<le> sint (ch_size cr)"
    using ssz tot1 by (simp add: cr_def)
  from crop_loop_chain [OF chain1 qps cr1 b1 z fit]
  obtain st' d' where run: "crop_loop st1 q (ar_head a) 0 = Some (Inr st')"
    and heap': "\<forall>x. heap st' x = (if x \<in> set ps then None
                                   else if x = q then Some (cr\<lparr>ch_data := d'\<rparr>)
                                   else heap st1 x)"
    and cat: "map d' [unat (0 :: ptrdiff) ..<
                unat (0 :: ptrdiff) + length (used_bytes (heap st1) ps)]
                = used_bytes (heap st1) ps"
    by blast
  define c where "c = cr\<lparr>ch_data := d'\<rparr>"
  have crop: "arena_crop_and_coalesce (Some a) flags st
      = Some (Inr (data_addr q 0, Some (a\<lparr>ar_head := q, ar_tail := q\<rparr>), st'))"
    using size al q run by (simp add: arena_crop_and_coalesce_def)
  have heapc: "\<forall>x. heap st' x = (if x \<in> set ps then None
                                  else if x = q then Some c else heap st x)"
    using heap' by (simp add: c_def h1)
  have hq: "heap st' q = Some c" using heapc qps by simp
  have after: "arena_get_size (Some (a\<lparr>ar_head := q, ar_tail := q\<rparr>)) st' = Some (Inr 0)"
    using hq q by (simp add: arena_get_size_def get_size_loop.simps c_def cr_def)
  have bytes: "map (ch_data c) [0 ..< length (used_bytes (heap st) ps)] = used_bytes (heap st) ps"
    using cat byt1 by (simp add: c_def)
  have len: "int (length (used_bytes (heap st) ps)) = used_total (heap st) ps"
    using offs by (rule used_bytes_length)
  have "ch_next c = 0" and "sint (ch_size c) = used_total (heap st) ps"
    using ssz by (simp_all add: c_def cr_def)
  with size ssz crop heapc bytes len after show ?thesis
    by (intro exI [of _ st'] exI [of _ c] exI [of _ sz]) simp
qed


text \<open>An instance: the two chunks at \<open>addr_a\<close> and \<open>addr_b\<close>, coalesced at \<open>addr_c\<close>.\<close>

lemma crop_coalesces_example:
  "\<exists>st' c. arena_crop_and_coalesce (Some arena_ab) 0 st_two_chunks
             = Some (Inr (data_addr addr_c 0, Some arena_c, st'))
         \<and> heap st' addr_a = None \<and> heap st' addr_b = None \<and> heap st' addr_c = Some c
         \<and> sint (ch_size c) = 4194408
         \<and> arena_get_size (Some arena_ab) st_two_chunks = Some (Inr 4194408)
         \<and> arena_get_size (Some arena_c) st' = Some (Inr 0)"
proof -
  have chain: "is_chain (heap st_two_chunks) (ar_head arena_ab) [addr_a, addr_b]"
    by (simp add: run_defs)
  have bounds: "\<forall>p\<in>set [addr_a, addr_b]. \<forall>c. heap st_two_chunks p = Some c
      \<longrightarrow> in_bounds 0 (ch_offset c) (ch_size c)"
    by (simp add: run_defs in_bounds_def)
  have total: "used_total (heap st_two_chunks) [addr_a, addr_b] = 4194408"
    by (simp add: run_defs used_total_def offset_of_def)
  have os: "os st_two_chunks 0 = Mapped addr_c" by (simp add: run_defs)
  have nz: "addr_c \<noteq> 0" by (simp add: run_defs)
  have fresh: "heap st_two_chunks addr_c = None" by (simp add: run_defs)
  have ar: "arena_ab\<lparr>ar_head := addr_c, ar_tail := addr_c\<rparr> = arena_c"
    by (simp add: run_defs)
  have before: "arena_get_size (Some arena_ab) st_two_chunks = Some (Inr 4194408)"
    by (simp add: model_defs loop_simps run_defs)
  have pos: "0 < used_total (heap st_two_chunks) [addr_a, addr_b]"
    and small: "used_total (heap st_two_chunks) [addr_a, addr_b] \<le> 2 ^ 63 - 25"
    by (simp_all add: total)
  from crop_coalesces [OF chain bounds pos small os nz fresh, of 0]
  obtain st' c where run: "arena_crop_and_coalesce (Some arena_ab) 0 st_two_chunks
      = Some (Inr (data_addr addr_c 0, Some (arena_ab\<lparr>ar_head := addr_c, ar_tail := addr_c\<rparr>), st'))"
    and hp: "\<forall>x. heap st' x = (if x \<in> set [addr_a, addr_b] then None
                                else if x = addr_c then Some c else heap st_two_chunks x)"
    and sz: "sint (ch_size c) = used_total (heap st_two_chunks) [addr_a, addr_b]"
    and after: "arena_get_size (Some (arena_ab\<lparr>ar_head := addr_c, ar_tail := addr_c\<rparr>)) st'
      = Some (Inr 0)"
    by blast
  have "heap st' addr_a = None" and "heap st' addr_b = None" using hp by simp_all
  moreover have "heap st' addr_c = Some c" using hp by (simp add: addr_a_def addr_b_def addr_c_def)
  ultimately show ?thesis using run sz after before unfolding ar total by blast
qed

end
